theory Spec2Isabelle
  imports Main "HOL-Library.Char_ord" "HOL-Library.List_Lexorder"
begin

section \<open>Errors\<close>

text \<open>
  Every exception the modelled code can raise is a value. The first group is the
  repository's own taxonomy (pyvospace.core.exception), the second the Python and
  library exceptions that the modelled paths can reach.
\<close>

datatype error =
    InvalidArgument string
  | InvalidURI string
  | InvalidXML string
  | VOSpaceError int string
  | NodeDoesNotExistError string
  | ContainerDoesNotExistError string
  | PermissionDenied string
  | NotImplementedError
  | IndexError
  | KeyError
  | AttributeError
  | TypeError
  | ValueError
  | AssertionError
  | OSError
  | HTTPForbidden string
  | IncompleteReadError

text \<open>Whether an error is of the generic \<open>VOSpaceError(code, message)\<close> kind.\<close>

fun is_VOSpaceError :: "error \<Rightarrow> bool" where
  "is_VOSpaceError (VOSpaceError _ _) = True"
| "is_VOSpaceError _ = False"

section \<open>Python string and path primitives\<close>

text \<open>
  The library functions the code calls on strings, written out after CPython:
  \<open>str.split\<close>, \<open>str.join\<close>, \<open>str.startswith\<close>, \<open>str.lstrip\<close>, \<open>str.rstrip\<close>,
  \<open>posixpath.normpath\<close>, \<open>posixpath.basename\<close>, \<open>posixpath.dirname\<close> and the path,
  scheme and fragment that \<open>urllib.parse.urlparse\<close> returns.
\<close>

fun split :: "char \<Rightarrow> string \<Rightarrow> string list" where
  "split c [] = [[]]"
| "split c (x # xs) =
     (if x = c then [] # split c xs
      else (x # hd (split c xs)) # tl (split c xs))"

fun join :: "string \<Rightarrow> string list \<Rightarrow> string" where
  "join sep [] = []"
| "join sep [w] = w"
| "join sep (w # ws) = w @ sep @ join sep ws"

definition startswith :: "string \<Rightarrow> string \<Rightarrow> bool" where
  "startswith s p = (take (length p) s = p)"

definition lstrip :: "char \<Rightarrow> string \<Rightarrow> string" where
  "lstrip c s = dropWhile (\<lambda>x. x = c) s"

definition rstrip :: "char \<Rightarrow> string \<Rightarrow> string" where
  "rstrip c s = rev (dropWhile (\<lambda>x. x = c) (rev s))"

text \<open>\<open>filter(None, xs)\<close> on a list of strings keeps the non-empty ones.\<close>

definition filter_None :: "string list \<Rightarrow> string list" where
  "filter_None xs = filter (\<lambda>w. w \<noteq> []) xs"

text \<open>The component loop of \<open>posixpath.normpath\<close>; \<open>new_comps\<close> grows at its end.\<close>

fun norm_comps :: "nat \<Rightarrow> string list \<Rightarrow> string list \<Rightarrow> string list" where
  "norm_comps initial_slashes new_comps [] = new_comps"
| "norm_comps initial_slashes new_comps (cmp # comps) =
     (if cmp = [] \<or> cmp = ''.'' then norm_comps initial_slashes new_comps comps
      else if cmp \<noteq> ''..'' \<or> (initial_slashes = 0 \<and> new_comps = [])
                \<or> (new_comps \<noteq> [] \<and> last new_comps = ''..'')
        then norm_comps initial_slashes (new_comps @ [cmp]) comps
      else if new_comps \<noteq> [] then norm_comps initial_slashes (butlast new_comps) comps
      else norm_comps initial_slashes new_comps comps)"

definition normpath :: "string \<Rightarrow> string" where
  "normpath p =
     (if p = [] then ''.''
      else
        let initial_slashes =
              (if startswith p ''/''
               then (if startswith p ''//'' \<and> \<not> startswith p ''///'' then 2 else 1)
               else (0::nat));
            comps = norm_comps initial_slashes [] (split CHR ''/'' p);
            q = replicate initial_slashes CHR ''/'' @ join ''/'' comps
        in if q = [] then ''.'' else q)"

text \<open>\<open>p.rfind('/') + 1\<close>: the length of the part of \<open>p\<close> up to its last slash.\<close>

definition rfind_slash_Suc :: "string \<Rightarrow> nat" where
  "rfind_slash_Suc p = length p - length (takeWhile (\<lambda>x. x \<noteq> CHR ''/'') (rev p))"

definition basename :: "string \<Rightarrow> string" where
  "basename p = drop (rfind_slash_Suc p) p"

definition dirname :: "string \<Rightarrow> string" where
  "dirname p =
     (let head = take (rfind_slash_Suc p) p
      in if head \<noteq> [] \<and> head \<noteq> replicate (length head) CHR ''/''
         then rstrip CHR ''/'' head else head)"

subsection \<open>urlparse\<close>

datatype ParseResult =
  ParseResult (pr_scheme: string) (pr_netloc: string) (pr_path: string)
              (pr_params: string) (pr_query: string) (pr_fragment: string)

definition scheme_chars :: string where
  "scheme_chars =
     ''abcdefghijklmnopqrstuvwxyzABCDEFGHIJKLMNOPQRSTUVWXYZ0123456789+-.''"

definition lower_char :: "char \<Rightarrow> char" where
  "lower_char c =
     (case map_of (zip ''ABCDEFGHIJKLMNOPQRSTUVWXYZ'' ''abcdefghijklmnopqrstuvwxyz'') c of
        Some d \<Rightarrow> d | None \<Rightarrow> c)"

definition uses_params :: "string list" where
  "uses_params =
     ['''', ''ftp'', ''hdl'', ''prospero'', ''http'', ''imap'', ''https'', ''shttp'',
      ''rtsp'', ''rtspu'', ''sip'', ''sips'', ''mms'', ''sftp'', ''tel'']"

text \<open>\<open>s.split(c, 1)\<close> when \<open>c\<close> occurs in \<open>s\<close>: the parts before and after its first
  occurrence.\<close>

definition split1 :: "char \<Rightarrow> string \<Rightarrow> string \<times> string" where
  "split1 c s = (takeWhile (\<lambda>x. x \<noteq> c) s, tl (dropWhile (\<lambda>x. x \<noteq> c) s))"

text \<open>The scheme step of \<open>urlsplit\<close>: the text before the first colon is the scheme when
  it is \<open>http\<close>, or when it is made of scheme characters and what follows is not a port
  number.\<close>

definition split_scheme :: "string \<Rightarrow> string \<times> string" where
  "split_scheme url =
     (let pre = takeWhile (\<lambda>x. x \<noteq> CHR '':'') url;
          rest = drop (Suc (length pre)) url
      in if CHR '':'' \<in> set url \<and> pre \<noteq> [] \<and>
            (pre = ''http'' \<or>
             (list_all (\<lambda>c. c \<in> set scheme_chars) pre \<and>
              (rest = [] \<or> list_ex (\<lambda>c. c \<notin> set ''0123456789'') rest)))
         then (map lower_char pre, rest)
         else ([], url))"

definition splitnetloc :: "string \<Rightarrow> string \<times> string" where
  "splitnetloc url =
     (let r = drop 2 url;
          n = takeWhile (\<lambda>x. x \<notin> set ''/?#'') r
      in (n, drop (length n) r))"

definition splitparams :: "string \<Rightarrow> string \<times> string" where
  "splitparams url =
     (let k = (if CHR ''/'' \<in> set url then rfind_slash_Suc url - 1 else 0);
          a = take k url; b = drop k url
      in if CHR '';'' \<in> set b
         then (a @ fst (split1 CHR '';'' b), snd (split1 CHR '';'' b))
         else (url, []))"

definition urlparse :: "string \<Rightarrow> error + ParseResult" where
  "urlparse url0 =
     (let (scheme, url1) = split_scheme url0;
          (netloc, url2) = (if take 2 url1 = ''//'' then splitnetloc url1 else ([], url1))
      in if (CHR ''['' \<in> set netloc \<and> CHR '']'' \<notin> set netloc)
            \<or> (CHR '']'' \<in> set netloc \<and> CHR ''['' \<notin> set netloc)
         then Inl ValueError
         else
           let (url3, fragment) =
                 (if CHR ''#'' \<in> set url2 then split1 CHR ''#'' url2 else (url2, []));
               (url4, query) =
                 (if CHR ''?'' \<in> set url3 then split1 CHR ''?'' url3 else (url3, []));
               (url5, params) =
                 (if scheme \<in> set uses_params \<and> CHR '';'' \<in> set url4
                  then splitparams url4 else (url4, []))
           in Inr (ParseResult scheme netloc url5 params query fragment))"

section \<open>Core model (pyvospace/core/model.py)\<close>

definition validate_property_uri :: "string \<Rightarrow> error + ParseResult" where
  "validate_property_uri uri =
     (if uri = [] then Inl (InvalidArgument ''uri empty'')
      else case urlparse uri of
        Inl e \<Rightarrow> Inl e
      | Inr parsed \<Rightarrow>
          if pr_scheme parsed \<noteq> ''ivo'' then Inl (InvalidArgument ''uri does not start with ivo'')
          else if pr_path parsed = [] then Inl (InvalidArgument ''path empty'')
          else if \<not> startswith (pr_path parsed) ''/vospace''
            then Inl (InvalidArgument ''path does not start with /vospace'')
          else if pr_fragment parsed = [] then Inl (InvalidArgument ''fragment empty'')
          else Inr parsed)"

text \<open>\<open>Node.uri_to_path\<close>.\<close>

definition uri_to_path :: "string \<Rightarrow> error + string" where
  "uri_to_path uri =
     (case urlparse uri of
        Inl e \<Rightarrow> Inl e
      | Inr uri_parsed \<Rightarrow>
          if pr_path uri_parsed = [] then Inl (InvalidURI ''URI does not exist.'')
          else Inr (rstrip CHR ''/'' (lstrip CHR ''/'' (normpath (pr_path uri_parsed)))))"


subsection \<open>Properties, views, protocols\<close>

text \<open>
  A \<open>Property\<close> holds a URI, a value (\<open>None\<close> in Python is \<open>None\<close> here), the
  \<open>read_only\<close> flag as the constructor received it (the parser passes \<open>None\<close> when the
  attribute is absent) and \<open>persist\<close>. \<open>p_delete\<close> tells a \<open>DeleteProperty\<close> instance
  from a plain \<open>Property\<close>.
\<close>

datatype property =
  PropertyObj (p_uri: string) (p_value: "string option") (p_read_only: "bool option")
              (p_persist: bool) (p_delete: bool)

definition Property :: "string \<Rightarrow> string option \<Rightarrow> bool option \<Rightarrow> error + property" where
  "Property uri v read_only =
     (case validate_property_uri uri of
        Inl e \<Rightarrow> Inl e
      | Inr _ \<Rightarrow> Inr (PropertyObj uri v read_only True False))"

definition DeleteProperty :: "string \<Rightarrow> error + property" where
  "DeleteProperty uri =
     (case validate_property_uri uri of
        Inl e \<Rightarrow> Inl e
      | Inr _ \<Rightarrow> Inr (PropertyObj uri None (Some False) True True))"

text \<open>\<open>Property.__eq__\<close>: URI, value and \<open>read_only\<close>.\<close>

definition property_eq :: "property \<Rightarrow> property \<Rightarrow> bool" where
  "property_eq a b =
     (p_uri a = p_uri b \<and> p_value a = p_value b \<and> p_read_only a = p_read_only b)"

datatype view = ViewObj (v_uri: string)

definition View :: "string \<Rightarrow> error + view" where
  "View uri =
     (case validate_property_uri uri of Inl e \<Rightarrow> Inl e | Inr _ \<Rightarrow> Inr (ViewObj uri))"

datatype parameter = ParameterObj (par_uri: string) (par_value: "string option")

definition Parameter :: "string \<Rightarrow> string option \<Rightarrow> error + parameter" where
  "Parameter uri v =
     (case validate_property_uri uri of Inl e \<Rightarrow> Inl e | Inr _ \<Rightarrow> Inr (ParameterObj uri v))"

text \<open>
  \<open>Endpoint(url)\<close> and \<open>SecurityMethod(url)\<close> refuse \<open>None\<close>; an object of either class
  is its URL. A protocol is its class, its URI and the two optional attachments.
\<close>

datatype endpoint = EndpointObj (e_url: string)

definition Endpoint :: "string option \<Rightarrow> error + endpoint" where
  "Endpoint url =
     (case url of None \<Rightarrow> Inl (InvalidArgument ''Endpoint URI is None.'')
      | Some u \<Rightarrow> Inr (EndpointObj u))"

datatype security_method = SecurityMethodObj (s_url: string)

definition SecurityMethod :: "string option \<Rightarrow> error + security_method" where
  "SecurityMethod url =
     (case url of None \<Rightarrow> Inl (InvalidArgument ''SecurityMethod URI is None.'')
      | Some u \<Rightarrow> Inr (SecurityMethodObj u))"

datatype protocol_class = GenericProtocol | HTTPPut | HTTPGet | HTTPSPut | HTTPSGet

datatype protocol =
  ProtocolObj (pc_class: protocol_class) (pc_uri: string)
              (pc_endpoint: "endpoint option") (pc_security_method: "security_method option")

subsection \<open>Nodes\<close>

text \<open>
  The six node classes are one datatype with the class as a tag. \<open>busy\<close>, \<open>accepts\<close>
  and \<open>provides\<close> are read only on the \<open>DataNode\<close> classes, \<open>n_target\<close> on a
  \<open>LinkNode\<close>, \<open>n_nodes\<close> (the ordered dictionary from child name to child) on a
  \<open>ContainerNode\<close>. The random \<open>id\<close>, \<open>capabilities\<close> and \<open>path_modified\<close> take no
  part in any operation modelled here and are left out.
\<close>

datatype node_class =
  NodeC | DataNodeC | UnstructuredDataNodeC | StructuredDataNodeC | ContainerNodeC | LinkNodeC

datatype node =
  NodeObj (n_class: node_class) (n_path: string) (n_properties: "property list")
          (n_owner: "string option") (n_group_read: "string list")
          (n_group_write: "string list") (n_busy: bool) (n_accepts: "view list")
          (n_provides: "view list") (n_target: "string option")
          (n_nodes: "(string \<times> node) list")

text \<open>The tag each class passes to \<open>Node.__init__\<close> as \<open>node_type\<close>.\<close>

definition class_text :: "node_class \<Rightarrow> string" where
  "class_text c =
     (case c of
        NodeC \<Rightarrow> ''vos:Node''
      | DataNodeC \<Rightarrow> ''vos:DataNode''
      | UnstructuredDataNodeC \<Rightarrow> ''vos:UnstructuredDataNode''
      | StructuredDataNodeC \<Rightarrow> ''vos:StructuredDataNode''
      | ContainerNodeC \<Rightarrow> ''vos:ContainerNode''
      | LinkNodeC \<Rightarrow> ''vos:LinkNode'')"

definition node_type_text :: "node \<Rightarrow> string" where
  "node_type_text n = class_text (n_class n)"

definition n_name :: "node \<Rightarrow> string" where
  "n_name n = basename (n_path n)"

definition n_dirname :: "node \<Rightarrow> string" where
  "n_dirname n = dirname (n_path n)"

text \<open>The constructors with their default arguments: \<open>Node(path)\<close>,
  \<open>DataNode(path, busy=b)\<close> and its subclasses, \<open>LinkNode(path, uri_target)\<close>.\<close>

definition new_node :: "node_class \<Rightarrow> string \<Rightarrow> bool \<Rightarrow> string option \<Rightarrow> error + node" where
  "new_node cls uri busy uri_target =
     (case uri_to_path uri of
        Inl e \<Rightarrow> Inl e
      | Inr p \<Rightarrow> Inr (NodeObj cls p [] None [] [] busy [] [] uri_target []))"

definition Node :: "string \<Rightarrow> error + node" where
  "Node uri = new_node NodeC uri False None"

subsection \<open>Transfers\<close>

text \<open>
  \<open>PushToSpace\<close> and \<open>PullFromSpace\<close> are the \<open>ProtocolTransfer\<close> classes (target,
  protocols, view, parameters; \<open>PullFromSpace\<close> adds \<open>redirect\<close>); \<open>Copy\<close> and \<open>Move\<close>
  are the \<open>NodeTransfer\<close> classes, whose direction is a second node.
\<close>

datatype transfer =
    PushToSpace node "protocol list" "view option" "parameter list"
  | PullFromSpace node "protocol list" "view option" "parameter list" bool
  | Copy node node
  | Move node node

fun t_target :: "transfer \<Rightarrow> node" where
  "t_target (PushToSpace t _ _ _) = t"
| "t_target (PullFromSpace t _ _ _ _) = t"
| "t_target (Copy t _) = t"
| "t_target (Move t _) = t"

text \<open>\<open>str(self.direction)\<close>; \<open>str\<close> of a node is its path.\<close>

fun t_direction_str :: "transfer \<Rightarrow> string" where
  "t_direction_str (PushToSpace _ _ _ _) = ''pushToVoSpace''"
| "t_direction_str (PullFromSpace _ _ _ _ _) = ''pullFromVoSpace''"
| "t_direction_str (Copy _ d) = n_path d"
| "t_direction_str (Move _ d) = n_path d"

fun t_protocols :: "transfer \<Rightarrow> protocol list" where
  "t_protocols (PushToSpace _ ps _ _) = ps"
| "t_protocols (PullFromSpace _ ps _ _ _) = ps"
| "t_protocols _ = []"

fun is_ProtocolTransfer :: "transfer \<Rightarrow> bool" where
  "is_ProtocolTransfer (PushToSpace _ _ _ _) = True"
| "is_ProtocolTransfer (PullFromSpace _ _ _ _ _) = True"
| "is_ProtocolTransfer _ = False"

fun is_PushToSpace :: "transfer \<Rightarrow> bool" where
  "is_PushToSpace (PushToSpace _ _ _ _) = True"
| "is_PushToSpace _ = False"

text \<open>
  \<open>Transfer.create_transfer\<close>. \<open>keep_bytes\<close> is tested for truth only: \<open>Some True\<close> is
  the true value, \<open>Some False\<close> and \<open>None\<close> (the empty result \<open>fromroot\<close> passes when the
  \<open>keepBytes\<close> element is absent) are the false ones. The arguments of a constructor
  call are evaluated left to right.
\<close>

definition create_transfer :: "string \<Rightarrow> string \<Rightarrow> bool option \<Rightarrow> error + transfer" where
  "create_transfer target direction keep_bytes =
     (if direction = ''pushToVoSpace'' then
        (case Node target of Inl e \<Rightarrow> Inl e | Inr t \<Rightarrow> Inr (PushToSpace t [] None []))
      else if direction = ''pullFromVoSpace'' then
        (case Node target of Inl e \<Rightarrow> Inl e | Inr t \<Rightarrow> Inr (PullFromSpace t [] None [] True))
      else if direction = ''pushFromVoSpace'' then Inl NotImplementedError
      else if direction = ''pullToVoSpace'' then Inl NotImplementedError
      else
        (case Node target of
           Inl e \<Rightarrow> Inl e
         | Inr t \<Rightarrow>
             (case Node direction of
                Inl e \<Rightarrow> Inl e
              | Inr d \<Rightarrow> if keep_bytes = Some True then Inr (Copy t d) else Inr (Move t d))))"

text \<open>
  \<open>tomap\<close>: the base class returns the empty dictionary, \<open>ProtocolTransfer.tomap\<close>
  builds the negotiation map and reads \<open>self.protocols[0]\<close> while doing so. The
  dictionary is the list of its items in insertion order.
\<close>

fun tomap :: "transfer \<Rightarrow> error + (string \<times> string) list" where
  "tomap (PushToSpace t ps v pars) =
     (case ps of
        [] \<Rightarrow> Inl IndexError
      | p # _ \<Rightarrow>
          Inr ([(''TARGET'', n_path t), (''DIRECTION'', ''pushToVoSpace''),
                (''PROTOCOL'', pc_uri p)]
               @ (case v of Some w \<Rightarrow> [(''VIEW'', v_uri w)] | None \<Rightarrow> [])))"
| "tomap (PullFromSpace t ps v pars redirect) =
     (case ps of
        [] \<Rightarrow> Inl IndexError
      | p # _ \<Rightarrow>
          Inr ([(''TARGET'', n_path t), (''DIRECTION'', ''pullFromVoSpace''),
                (''PROTOCOL'', pc_uri p)]
               @ (case v of Some w \<Rightarrow> [(''VIEW'', v_uri w)] | None \<Rightarrow> [])
               @ (if redirect then [(''REQUEST'', ''redirect'')] else [])))"
| "tomap (Copy _ _) = Inr []"
| "tomap (Move _ _) = Inr []"

subsection \<open>XML documents\<close>

text \<open>
  A document is its element tree, as \<open>lxml.etree\<close> presents it to the code: a tag in
  Clark notation (namespace in braces), the attributes in the order they were set, the
  text (\<open>None\<close> when there is none) and the children in document order. The namespace
  map of a root element only fixes prefixes in the serialised text and is left out.
\<close>

datatype xml =
  Element (x_tag: string) (x_attrib: "(string \<times> string) list") (x_text: "string option")
          (x_children: "xml list")

definition vos :: "string \<Rightarrow> string" where
  "vos t = ''{http://www.ivoa.net/xml/VOSpace/v2.1}'' @ t"

definition uws :: "string \<Rightarrow> string" where
  "uws t = ''{http://www.ivoa.net/xml/UWS/v1.0}'' @ t"

definition xsi :: "string \<Rightarrow> string" where
  "xsi t = ''{http://www.w3.org/2001/XMLSchema-instance}'' @ t"

text \<open>\<open>d[k] = v\<close> on an ordered dictionary (and \<open>element.set(k, v)\<close>): an existing key
  keeps its place, a new one goes to the end.\<close>

fun dict_set :: "('k \<times> 'v) list \<Rightarrow> 'k \<Rightarrow> 'v \<Rightarrow> ('k \<times> 'v) list" where
  "dict_set [] k v = [(k, v)]"
| "dict_set ((k', v') # d) k v =
     (if k' = k then (k, v) # d else (k', v') # dict_set d k v)"

definition attrib_get :: "xml \<Rightarrow> string \<Rightarrow> string option" where
  "attrib_get e k = map_of (x_attrib e) k"

definition attrib_set :: "xml \<Rightarrow> string \<Rightarrow> string \<Rightarrow> xml" where
  "attrib_set e k v = Element (x_tag e) (dict_set (x_attrib e) k v) (x_text e) (x_children e)"

text \<open>\<open>ET.SubElement(parent, tag)\<close> followed by what the code does to the new element:
  the finished child is appended to the parent.\<close>

definition append_child :: "xml \<Rightarrow> xml \<Rightarrow> xml" where
  "append_child parent child =
     Element (x_tag parent) (x_attrib parent) (x_text parent) (x_children parent @ [child])"

text \<open>The children with a tag (the relative path \<open>e.xpath('p:tag')\<close>, and \<open>e.find\<close> for
  the first of them), and an absolute path \<open>/t1/t2/...\<close> from the root of the document.\<close>

definition children_tagged :: "xml \<Rightarrow> string \<Rightarrow> xml list" where
  "children_tagged e t = filter (\<lambda>c. x_tag c = t) (x_children e)"

fun descend :: "xml list \<Rightarrow> string list \<Rightarrow> xml list" where
  "descend es [] = es"
| "descend es (t # ts) = descend (concat (map (\<lambda>e. children_tagged e t) es)) ts"

fun xpath_abs :: "xml \<Rightarrow> string list \<Rightarrow> xml list" where
  "xpath_abs root [] = []"
| "xpath_abs root (t # ts) = (if x_tag root = t then descend [root] ts else [])"

text \<open>A loop that builds one object from each element and stops at the first error.\<close>

fun for_each :: "('a \<Rightarrow> error + 'b) \<Rightarrow> 'a list \<Rightarrow> error + 'b list" where
  "for_each f [] = Inr []"
| "for_each f (x # xs) =
     (case f x of
        Inl e \<Rightarrow> Inl e
      | Inr y \<Rightarrow> (case for_each f xs of Inl e \<Rightarrow> Inl e | Inr ys \<Rightarrow> Inr (y # ys)))"

subsection \<open>Node documents\<close>

text \<open>
  \<open>tostring\<close> is the tree the method serialises and \<open>fromstring\<close> reads such a tree:
  the text form in between and its parser belong to \<open>lxml\<close>.
\<close>

definition to_uri :: "node \<Rightarrow> string" where
  "to_uri n = ''vos://icrar.org!vospace/'' @ n_path n"

text \<open>\<open>str(prop.read_only).lower()\<close>.\<close>

definition read_only_text :: "bool option \<Rightarrow> string" where
  "read_only_text ro =
     (case ro of None \<Rightarrow> ''none'' | Some b \<Rightarrow> if b then ''true'' else ''false'')"

definition bool_text :: "bool \<Rightarrow> string" where
  "bool_text b = (if b then ''true'' else ''false'')"

definition property_toxml :: "property \<Rightarrow> xml" where
  "property_toxml prop =
     Element (vos ''property'')
       ([(''uri'', p_uri prop), (''readOnly'', read_only_text (p_read_only prop))]
        @ (if p_delete prop then [(xsi ''nil'', ''true'')] else []))
       (p_value prop) []"

definition Node_toxml :: "node \<Rightarrow> xml" where
  "Node_toxml n =
     Element (vos ''node'') [(xsi ''type'', node_type_text n), (''uri'', to_uri n)] None
       (if n_properties n = [] then []
        else [Element (vos ''properties'') [] None (map property_toxml (n_properties n))])"

definition view_toxml :: "view \<Rightarrow> xml" where
  "view_toxml v = Element (vos ''view'') [(''uri'', v_uri v)] None []"

text \<open>\<open>tostring\<close> of each class: \<open>Node\<close>, \<open>LinkNode\<close> (adds \<open>vos:target\<close>),
  \<open>ContainerNode\<close> (adds \<open>vos:nodes\<close> with the URI and type of each child) and
  \<open>DataNode\<close> with its two other subclasses (adds \<open>busy\<close>, \<open>vos:accepts\<close>,
  \<open>vos:provides\<close>).\<close>

definition tostring :: "node \<Rightarrow> xml" where
  "tostring n =
     (case n_class n of
        NodeC \<Rightarrow> Node_toxml n
      | LinkNodeC \<Rightarrow>
          append_child (Node_toxml n) (Element (vos ''target'') [] (n_target n) [])
      | ContainerNodeC \<Rightarrow>
          append_child (Node_toxml n)
            (Element (vos ''nodes'') [] None
               (map (\<lambda>child. Element (vos ''node'')
                                [(''uri'', to_uri child), (xsi ''type'', node_type_text child)]
                                None [])
                    (map snd (n_nodes n))))
      | _ \<Rightarrow>
          (let root = attrib_set (Node_toxml n) ''busy'' (bool_text (n_busy n));
               root1 = (if n_accepts n = [] then root
                        else append_child root
                               (Element (vos ''accepts'') [] None (map view_toxml (n_accepts n))))
           in if n_provides n = [] then root1
              else append_child root1
                     (Element (vos ''provides'') [] None (map view_toxml (n_provides n)))))"

text \<open>\<open>Node.create_node\<close>; an absent attribute is \<open>None\<close>, which the constructor refuses
  as a URI without a path.\<close>

definition new_node_opt ::
  "node_class \<Rightarrow> string option \<Rightarrow> bool \<Rightarrow> string option \<Rightarrow> error + node" where
  "new_node_opt cls uri busy uri_target =
     (case uri of
        None \<Rightarrow> Inl (InvalidURI ''URI does not exist.'')
      | Some u \<Rightarrow> new_node cls u busy uri_target)"

definition create_node :: "string option \<Rightarrow> string option \<Rightarrow> bool \<Rightarrow> error + node" where
  "create_node node_uri type_tag node_busy =
     (if type_tag = Some ''vos:Node'' then new_node_opt NodeC node_uri False None
      else if type_tag = Some ''vos:DataNode''
        then new_node_opt DataNodeC node_uri node_busy None
      else if type_tag = Some ''vos:UnstructuredDataNode''
        then new_node_opt UnstructuredDataNodeC node_uri node_busy None
      else if type_tag = Some ''vos:StructuredDataNode''
        then new_node_opt StructuredDataNodeC node_uri node_busy None
      else if type_tag = Some ''vos:ContainerNode''
        then new_node_opt ContainerNodeC node_uri node_busy None
      else if type_tag = Some ''vos:LinkNode'' then new_node_opt LinkNodeC node_uri False None
      else Inl (InvalidURI ''Unknown node type.''))"

text \<open>
  The body of the property loop of \<open>Node.build_node\<close>. A \<open>readOnly\<close> attribute that is
  present and not empty becomes the boolean "is it the text true"; an absent one is
  passed on as \<open>None\<close> (as is, here, an empty one, which the source passes on as the
  empty string).
\<close>

definition parse_property :: "xml \<Rightarrow> error + property" where
  "parse_property node_property =
     (case attrib_get node_property ''uri'' of
        None \<Rightarrow> Inl (InvalidXML ''vos:property URI does not exist.'')
      | Some prop_uri \<Rightarrow>
          (let delete_prop = attrib_get node_property (xsi ''nil'');
               prop_ro = (case attrib_get node_property ''readOnly'' of
                            None \<Rightarrow> None
                          | Some ro \<Rightarrow> if ro = [] then None else Some (ro = ''true''));
               prop_text = x_text node_property
           in if delete_prop = None then Property prop_uri prop_text prop_ro
              else DeleteProperty prop_uri))"

text \<open>The setters of a node's fields.\<close>

definition set_properties :: "node \<Rightarrow> property list \<Rightarrow> node" where
  "set_properties n ps =
     NodeObj (n_class n) (n_path n) ps (n_owner n) (n_group_read n) (n_group_write n)
       (n_busy n) (n_accepts n) (n_provides n) (n_target n) (n_nodes n)"

definition set_views :: "node \<Rightarrow> view list \<Rightarrow> view list \<Rightarrow> node" where
  "set_views n accepts provides =
     NodeObj (n_class n) (n_path n) (n_properties n) (n_owner n) (n_group_read n)
       (n_group_write n) (n_busy n) accepts provides (n_target n) (n_nodes n)"

definition set_target :: "node \<Rightarrow> string option \<Rightarrow> node" where
  "set_target n t =
     NodeObj (n_class n) (n_path n) (n_properties n) (n_owner n) (n_group_read n)
       (n_group_write n) (n_busy n) (n_accepts n) (n_provides n) t (n_nodes n)"

definition set_nodes :: "node \<Rightarrow> (string \<times> node) list \<Rightarrow> node" where
  "set_nodes n ns =
     NodeObj (n_class n) (n_path n) (n_properties n) (n_owner n) (n_group_read n)
       (n_group_write n) (n_busy n) (n_accepts n) (n_provides n) (n_target n) ns"

text \<open>\<open>sort_properties\<close>: the stable sort by URI.\<close>

definition sort_properties :: "property list \<Rightarrow> property list" where
  "sort_properties ps = sort_key p_uri ps"

definition Node_build_node :: "node \<Rightarrow> xml \<Rightarrow> error + node" where
  "Node_build_node self root =
     (case for_each parse_property
             (xpath_abs root [vos ''node'', vos ''properties'', vos ''property'']) of
        Inl e \<Rightarrow> Inl e
      | Inr props \<Rightarrow> Inr (set_properties self (sort_properties (n_properties self @ props))))"

definition parse_view :: "string \<Rightarrow> xml \<Rightarrow> error + view" where
  "parse_view msg v =
     (case attrib_get v ''uri'' of
        None \<Rightarrow> Inl (InvalidXML msg)
      | Some view_uri \<Rightarrow> View view_uri)"

definition DataNode_build_node :: "node \<Rightarrow> xml \<Rightarrow> error + node" where
  "DataNode_build_node self root =
     (case Node_build_node self root of
        Inl e \<Rightarrow> Inl e
      | Inr self1 \<Rightarrow>
          (case for_each (parse_view ''Accepts URI does not exist.'')
                  (xpath_abs root [vos ''node'', vos ''accepts'', vos ''view'']) of
             Inl e \<Rightarrow> Inl e
           | Inr acc \<Rightarrow>
               (case for_each (parse_view ''Provides URI does not exist.'')
                       (xpath_abs root [vos ''node'', vos ''provides'', vos ''view'']) of
                  Inl e \<Rightarrow> Inl e
                | Inr prov \<Rightarrow>
                    Inr (set_views self1 (n_accepts self1 @ acc) (n_provides self1 @ prov)))))"

text \<open>\<open>ContainerNode.check_path\<close> and \<open>add_node\<close>: the child is stored under its name.\<close>

definition add_node :: "node \<Rightarrow> node \<Rightarrow> bool \<Rightarrow> error + node" where
  "add_node self node overwrite =
     (if n_path self \<noteq> n_dirname node
        then Inl (InvalidArgument (n_path self @ '' is not a parent of '' @ n_path node))
      else if \<not> overwrite \<and> map_of (n_nodes self) (n_name node) \<noteq> None
        then Inl (InvalidArgument (''duplicate node '' @ n_path node))
      else Inr (set_nodes self (dict_set (n_nodes self) (n_name node) node)))"

text \<open>The child loop of \<open>ContainerNode.build_node\<close>; a child takes the \<open>busy\<close> flag of
  the root element.\<close>

fun build_children :: "node \<Rightarrow> bool \<Rightarrow> xml list \<Rightarrow> error + node" where
  "build_children self node_busy [] = Inr self"
| "build_children self node_busy (nodes # more) =
     (case create_node (attrib_get nodes ''uri'') (attrib_get nodes (xsi ''type'')) node_busy of
        Inl e \<Rightarrow> Inl e
      | Inr node \<Rightarrow>
          (case add_node self node True of
             Inl e \<Rightarrow> Inl e
           | Inr self1 \<Rightarrow> build_children self1 node_busy more))"

definition build_node :: "node \<Rightarrow> xml \<Rightarrow> error + node" where
  "build_node self root =
     (case n_class self of
        NodeC \<Rightarrow> Node_build_node self root
      | LinkNodeC \<Rightarrow>
          (case Node_build_node self root of
             Inl e \<Rightarrow> Inl e
           | Inr self1 \<Rightarrow>
               (case children_tagged root (vos ''target'') of
                  [] \<Rightarrow> Inl (InvalidXML ''vos:target target does not exist.'')
                | target # _ \<Rightarrow> Inr (set_target self1 (x_text target))))
      | ContainerNodeC \<Rightarrow>
          (case DataNode_build_node self root of
             Inl e \<Rightarrow> Inl e
           | Inr self1 \<Rightarrow>
               build_children self1 (attrib_get root ''busy'' = Some ''true'')
                 (xpath_abs root [vos ''node'', vos ''nodes'', vos ''node'']))
      | _ \<Rightarrow> DataNode_build_node self root)"

definition fromstring :: "xml \<Rightarrow> error + node" where
  "fromstring root =
     (case create_node (attrib_get root ''uri'') (attrib_get root (xsi ''type''))
             (attrib_get root ''busy'' = Some ''true'') of
        Inl e \<Rightarrow> Inl e
      | Inr node \<Rightarrow> build_node node root)"

text \<open>
  Well-formed input for the round trip between \<open>tostring\<close> and \<open>fromstring\<close>: a
  path made of components that are not empty, \<open>.\<close> or \<open>..\<close> (or the empty path of the
  root), without \<open>#\<close> and \<open>?\<close>; a property whose URI validates, whose \<open>read_only\<close> is
  a boolean, and which, as a delete marker, is as \<open>DeleteProperty\<close> builds it; a view
  whose URI validates. \<open>child_entry\<close> is the element \<open>ContainerNode.tostring\<close> writes
  for a child.
\<close>

definition good_comp :: "string \<Rightarrow> bool" where
  "good_comp c = (c \<noteq> [] \<and> c \<noteq> ''.'' \<and> c \<noteq> ''..'')"

definition canonical_path :: "string \<Rightarrow> bool" where
  "canonical_path p =
     (CHR ''#'' \<notin> set p \<and> CHR ''?'' \<notin> set p
      \<and> (p = [] \<or> list_all good_comp (split CHR ''/'' p)))"

definition wf_property :: "property \<Rightarrow> bool" where
  "wf_property p =
     (\<not> isl (validate_property_uri (p_uri p)) \<and> p_read_only p \<noteq> None
      \<and> (if p_delete p then p_value p = None \<and> p_read_only p = Some False else True))"

definition wf_view :: "view \<Rightarrow> bool" where
  "wf_view v = (\<not> isl (validate_property_uri (v_uri v)))"

definition child_entry :: "node \<Rightarrow> xml" where
  "child_entry child =
     Element (vos ''node'') [(''uri'', to_uri child), (xsi ''type'', node_type_text child)]
       None []"

text \<open>
  \<open>==\<close> on nodes, through the \<open>__eq__\<close> methods of the classes: two nodes of different
  classes are never equal; of the same class they are equal when path, type tag and
  property lists (element by element, by \<open>Property.__eq__\<close>) agree, and in addition the
  targets for a \<open>LinkNode\<close> and the child dictionaries for a \<open>ContainerNode\<close>.
\<close>

fun node_eq :: "node \<Rightarrow> node \<Rightarrow> bool" where
  "node_eq (NodeObj c p ps ow gr gw b ac pr tg ns)
           (NodeObj c' p' ps' ow' gr' gw' b' ac' pr' tg' ns') =
     (p = p' \<and> class_text c = class_text c' \<and> list_all2 property_eq ps ps'
      \<and> (if c = LinkNodeC then tg = tg' else True)
      \<and> (if c = ContainerNodeC
          then list_all2 (\<lambda>x y. fst x = fst y \<and> node_eq (snd x) (snd y)) ns ns'
          else True))"

subsection \<open>Guided tree insertion\<close>




subsection \<open>Protocol construction and ProtocolTransfer.build_node\<close>

text \<open>
  The constructor \<open>Protocol(uri, endpoint=None, security_method=None)\<close> takes whatever
  it is given, so its arguments are Python values: \<open>None\<close>, a string, an \<open>Endpoint\<close> or
  a \<open>SecurityMethod\<close>. The URI setter runs \<open>validate_property_uri\<close>: \<open>None\<close> and the
  empty string are refused as empty, a string is validated, and on an object that is
  neither \<open>urlparse\<close> raises (\<open>AttributeError\<close>: it has no \<open>decode\<close>). The other two
  setters skip a false value and refuse a true one of the wrong class.
\<close>

datatype pyval = PyNone | PyStr string | PyEndpoint endpoint | PySecurityMethod security_method

definition validate_property_uri_dyn :: "pyval \<Rightarrow> error + ParseResult" where
  "validate_property_uri_dyn v =
     (case v of
        PyNone \<Rightarrow> Inl (InvalidArgument ''uri empty'')
      | PyStr s \<Rightarrow> validate_property_uri s
      | PyEndpoint _ \<Rightarrow> Inl AttributeError
      | PySecurityMethod _ \<Rightarrow> Inl AttributeError)"

definition endpoint_setter :: "pyval \<Rightarrow> error + endpoint option" where
  "endpoint_setter v =
     (case v of
        PyNone \<Rightarrow> Inr None
      | PyStr s \<Rightarrow> if s = [] then Inr None else Inl (InvalidArgument ''invalid Endpoint'')
      | PyEndpoint e \<Rightarrow> Inr (Some e)
      | PySecurityMethod _ \<Rightarrow> Inl (InvalidArgument ''invalid Endpoint''))"

definition security_method_setter :: "pyval \<Rightarrow> error + security_method option" where
  "security_method_setter v =
     (case v of
        PyNone \<Rightarrow> Inr None
      | PyStr s \<Rightarrow> if s = [] then Inr None else Inl (InvalidArgument ''invalid SecurityMethod'')
      | PyEndpoint _ \<Rightarrow> Inl (InvalidArgument ''invalid SecurityMethod'')
      | PySecurityMethod m \<Rightarrow> Inr (Some m))"

definition Protocol_init :: "protocol_class \<Rightarrow> pyval \<Rightarrow> pyval \<Rightarrow> pyval \<Rightarrow> error + protocol" where
  "Protocol_init cls uri ep security_method =
     (case validate_property_uri_dyn uri of
        Inl e \<Rightarrow> Inl e
      | Inr _ \<Rightarrow>
          (case endpoint_setter ep of
             Inl e \<Rightarrow> Inl e
           | Inr ep' \<Rightarrow>
               (case security_method_setter security_method of
                  Inl e \<Rightarrow> Inl e
                | Inr sm' \<Rightarrow>
                    Inr (ProtocolObj cls (case uri of PyStr u \<Rightarrow> u | _ \<Rightarrow> []) ep' sm'))))"

text \<open>The generic class and the four subclasses, each with its fixed URI.\<close>

definition Protocol :: "pyval \<Rightarrow> pyval \<Rightarrow> pyval \<Rightarrow> error + protocol" where
  "Protocol uri ep security_method = Protocol_init GenericProtocol uri ep security_method"

definition HTTPPut_init :: "pyval \<Rightarrow> pyval \<Rightarrow> error + protocol" where
  "HTTPPut_init ep security_method =
     Protocol_init HTTPPut (PyStr ''ivo://ivoa.net/vospace/core#httpput'') ep security_method"

definition HTTPGet_init :: "pyval \<Rightarrow> pyval \<Rightarrow> error + protocol" where
  "HTTPGet_init ep security_method =
     Protocol_init HTTPGet (PyStr ''ivo://ivoa.net/vospace/core#httpget'') ep security_method"

definition HTTPSPut_init :: "pyval \<Rightarrow> pyval \<Rightarrow> error + protocol" where
  "HTTPSPut_init ep security_method =
     Protocol_init HTTPSPut (PyStr ''ivo://ivoa.net/vospace/core#httpsput'') ep security_method"

definition HTTPSGet_init :: "pyval \<Rightarrow> pyval \<Rightarrow> error + protocol" where
  "HTTPSGet_init ep security_method =
     Protocol_init HTTPSGet (PyStr ''ivo://ivoa.net/vospace/core#httpsget'') ep security_method"

text \<open>
  The body of the protocol loop of \<open>ProtocolTransfer.build_node\<close> for one
  \<open>vos:protocol\<close> element: the security method, the endpoint, then the constructor
  chosen by the \<open>uri\<close> attribute. The last branch is the source's
  \<open>Protocol(endpoint, security_obj)\<close>.
\<close>

definition build_security :: "xml \<Rightarrow> error + pyval" where
  "build_security protocol =
     (case children_tagged protocol (vos ''securityMethod'') of
        [] \<Rightarrow> Inr PyNone
      | security_elem # _ \<Rightarrow>
          (case attrib_get security_elem ''uri'' of
             None \<Rightarrow> Inl (InvalidXML ''vos:securityMethod URI does not exist.'')
           | Some security_uri \<Rightarrow>
               (case SecurityMethod (Some security_uri) of
                  Inl e \<Rightarrow> Inl e
                | Inr m \<Rightarrow> Inr (PySecurityMethod m))))"

definition build_endpoint :: "xml \<Rightarrow> error + pyval" where
  "build_endpoint protocol =
     (case children_tagged protocol (vos ''endpoint'') of
        [] \<Rightarrow> Inr PyNone
      | endpoint_elem # _ \<Rightarrow>
          (case Endpoint (x_text endpoint_elem) of
             Inl e \<Rightarrow> Inl e
           | Inr ep \<Rightarrow> Inr (PyEndpoint ep)))"

definition build_protocol :: "xml \<Rightarrow> error + protocol" where
  "build_protocol protocol =
     (let protocol_uri = attrib_get protocol ''uri''
      in case build_security protocol of
           Inl e \<Rightarrow> Inl e
         | Inr security_obj \<Rightarrow>
             (case build_endpoint protocol of
                Inl e \<Rightarrow> Inl e
              | Inr ep \<Rightarrow>
                  if protocol_uri = Some ''ivo://ivoa.net/vospace/core#httpput''
                    then HTTPPut_init ep security_obj
                  else if protocol_uri = Some ''ivo://ivoa.net/vospace/core#httpget''
                    then HTTPGet_init ep security_obj
                  else if protocol_uri = Some ''ivo://ivoa.net/vospace/core#httpsput''
                    then HTTPSPut_init ep security_obj
                  else if protocol_uri = Some ''ivo://ivoa.net/vospace/core#httpsget''
                    then HTTPSGet_init ep security_obj
                  else Protocol ep security_obj PyNone))"

definition build_view :: "xml \<Rightarrow> error + view option" where
  "build_view root =
     (case xpath_abs root [vos ''transfer'', vos ''view''] of
        [] \<Rightarrow> Inr None
      | view_elem # _ \<Rightarrow>
          (case attrib_get view_elem ''uri'' of
             None \<Rightarrow> Inl (InvalidArgument ''uri empty'')
           | Some view_uri \<Rightarrow>
               (case View view_uri of Inl e \<Rightarrow> Inl e | Inr v \<Rightarrow> Inr (Some v))))"

definition build_param :: "xml \<Rightarrow> error + parameter" where
  "build_param param =
     (case attrib_get param ''uri'' of
        None \<Rightarrow> Inl (InvalidArgument ''uri empty'')
      | Some param_uri \<Rightarrow> Parameter param_uri (x_text param))"

text \<open>\<open>build_node\<close> of a transfer: \<open>ProtocolTransfer.build_node\<close> sets the view when the
  document has one and appends the protocols and parameters of the document to those
  the transfer holds; \<open>Copy\<close> and \<open>Move\<close> do nothing.\<close>

fun transfer_build_node :: "transfer \<Rightarrow> xml \<Rightarrow> error + transfer" where
  "transfer_build_node (Copy t d) root = Inr (Copy t d)"
| "transfer_build_node (Move t d) root = Inr (Move t d)"
| "transfer_build_node (PushToSpace t ps v pars) root =
     (case build_view root of
        Inl e \<Rightarrow> Inl e
      | Inr v' \<Rightarrow>
          (case for_each build_protocol (xpath_abs root [vos ''transfer'', vos ''protocol'']) of
             Inl e \<Rightarrow> Inl e
           | Inr ps' \<Rightarrow>
               (case for_each build_param (xpath_abs root [vos ''transfer'', vos ''param'']) of
                  Inl e \<Rightarrow> Inl e
                | Inr pars' \<Rightarrow>
                    Inr (PushToSpace t (ps @ ps') (case v' of None \<Rightarrow> v | Some w \<Rightarrow> Some w)
                           (pars @ pars')))))"
| "transfer_build_node (PullFromSpace t ps v pars redirect) root =
     (case build_view root of
        Inl e \<Rightarrow> Inl e
      | Inr v' \<Rightarrow>
          (case for_each build_protocol (xpath_abs root [vos ''transfer'', vos ''protocol'']) of
             Inl e \<Rightarrow> Inl e
           | Inr ps' \<Rightarrow>
               (case for_each build_param (xpath_abs root [vos ''transfer'', vos ''param'']) of
                  Inl e \<Rightarrow> Inl e
                | Inr pars' \<Rightarrow>
                    Inr (PullFromSpace t (ps @ ps')
                           (case v' of None \<Rightarrow> v | Some w \<Rightarrow> Some w) (pars @ pars')
                           redirect))))"

subsection \<open>UWS jobs\<close>

datatype UWSResult = UWSResultObj (res_id: string) (res_attrs: "(string \<times> string) list")

text \<open>A job as its constructor leaves it: the \<open>results\<close> setter stores a non-empty list
  and leaves \<open>None\<close> otherwise.\<close>

datatype UWSJob =
  UWSJobObj (j_job_id: string) (j_phase: int) (j_destruction: string)
            (j_job_info: "transfer option") (j_results: "UWSResult list option")
            (j_error: "string option")

definition new_UWSJob ::
  "string \<Rightarrow> int \<Rightarrow> string \<Rightarrow> transfer option \<Rightarrow> UWSResult list \<Rightarrow> string option \<Rightarrow> UWSJob" where
  "new_UWSJob job_id phase destruction job_info results err =
     UWSJobObj job_id phase destruction job_info
       (if results = [] then None else Some results) err"

definition UWSPhaseLookup :: "int \<Rightarrow> string option" where
  "UWSPhaseLookup =
     map_of [(0, ''PENDING''), (1, ''QUEUED''), (2, ''EXECUTING''), (3, ''COMPLETED''),
             (4, ''ERROR''), (5, ''ABORTED''), (6, ''UNKNOWN''), (7, ''HELD''),
             (8, ''SUSPENDED''), (9, ''ARCHIVED'')]"

text \<open>\<open>UWSResult.toxml(root)\<close> appends a \<open>uws:result\<close> to \<open>root\<close> with the result's id and
  then its attributes.\<close>

definition UWSResult_toxml :: "UWSResult \<Rightarrow> xml \<Rightarrow> xml" where
  "UWSResult_toxml res root =
     append_child root
       (foldl (\<lambda>result (k, v). attrib_set result k v)
          (Element (uws ''result'') [(''id'', res_id res)] None [])
          (res_attrs res))"

text \<open>\<open>Transfer.toxml\<close>, which the job embeds in \<open>uws:jobInfo\<close>.\<close>

definition Transfer_toxml :: "transfer \<Rightarrow> xml" where
  "Transfer_toxml t =
     Element (vos ''transfer'') [] None
       [Element (vos ''target'') [] (Some (n_path (t_target t))) [],
        Element (vos ''direction'') [] (Some (t_direction_str t)) []]"

text \<open>
  \<open>UWSJob.toxml\<close>. For the results the source creates the \<open>uws:results\<close> element under
  the name \<open>results\<close> and then loops \<open>for result in results: result.toxml(results)\<close>:
  the loop runs over the children of the element just created, and its body, were it
  to run, would call \<open>toxml\<close> on an element (\<open>AttributeError\<close>).
\<close>

definition UWSJob_results_loop :: "xml \<Rightarrow> error + xml" where
  "UWSJob_results_loop results =
     (case x_children results of [] \<Rightarrow> Inr results | result # _ \<Rightarrow> Inl AttributeError)"

definition UWSJob_toxml :: "UWSJob \<Rightarrow> error + xml" where
  "UWSJob_toxml job =
     (case UWSPhaseLookup (j_phase job) of
        None \<Rightarrow> Inl KeyError
      | Some phase_text \<Rightarrow>
          (case (case j_results job of
                   None \<Rightarrow> Inr []
                 | Some rs \<Rightarrow>
                     (case UWSJob_results_loop (Element (uws ''results'') [] None []) of
                        Inl e \<Rightarrow> Inl e
                      | Inr results \<Rightarrow> Inr [results])) of
             Inl e \<Rightarrow> Inl e
           | Inr results_part \<Rightarrow>
               Inr (Element (uws ''job'') [] None
                      ([Element (uws ''jobId'') [] (Some (j_job_id job)) [],
                        Element (uws ''ownerId'') [(xsi ''nil'', ''true'')] None [],
                        Element (uws ''phase'') [] (Some phase_text) [],
                        Element (uws ''quote'') [] None [],
                        Element (uws ''startTime'') [(xsi ''nil'', ''true'')] None [],
                        Element (uws ''endTime'') [(xsi ''nil'', ''true'')] None [],
                        Element (uws ''executionDuration'') [] (Some ''0'') [],
                        Element (uws ''destruction'') [] (Some (j_destruction job)) []]
                       @ (case j_job_info job of
                            None \<Rightarrow> []
                          | Some info \<Rightarrow> [Element (uws ''jobInfo'') [] None [Transfer_toxml info]])
                       @ results_part
                       @ (case j_error job of
                            None \<Rightarrow> []
                          | Some msg \<Rightarrow>
                              if msg = [] then []
                              else [Element (uws ''errorSummary'') [] None
                                      [Element (uws ''message'') [] (Some msg) []]])))))"

text \<open>\<open>results_tostring\<close>, the sibling that serialises the results alone: it loops over
  \<open>self.results\<close>.\<close>

definition UWSJob_results_toxml :: "UWSJob \<Rightarrow> xml option" where
  "UWSJob_results_toxml job =
     (case j_results job of
        None \<Rightarrow> None
      | Some rs \<Rightarrow>
          Some (foldl (\<lambda>results_elem result. UWSResult_toxml result results_elem)
                  (Element (uws ''results'') [] None []) rs))"

section \<open>Node persistence (pyvospace/server/database.py)\<close>

text \<open>
  The tables are the lists of their rows. A path column holds the hierarchical label
  (\<open>a.b.c\<close>) as text; \<open>order by path asc\<close> is the stable sort on that text, which
  orders a parent before its children. SQL \<open>NULL\<close> is \<open>None\<close>.
\<close>

datatype node_row =
  NodeRow (r_type: int) (r_name: string) (r_path: string) (r_owner: "string option")
          (r_space_id: int) (r_link: "string option") (r_busy: bool)
          (r_groupread: "string list option") (r_groupwrite: "string list option")

datatype property_row =
  PropertyRow (q_uri: string) (q_value: "string option") (q_read_only: "bool option")
              (q_node_path: string) (q_space_id: int)

definition path_to_ltree :: "string \<Rightarrow> error + string" where
  "path_to_ltree path =
     (let path_array = filter_None (split CHR ''/'' path)
      in if path_array = [] then Inl (InvalidURI ''Path is empty'')
         else Inr (join ''.'' path_array))"

text \<open>
  \<open>_get_node_and_parent\<close>. Its query is
  \<open>select * from nodes where path=$1 or path=$2 and space_id=$3 order by path asc\<close>
  with \<open>$1\<close> the node's label, \<open>$2\<close> the parent's and \<open>$3\<close> the space; in SQL \<open>and\<close>
  binds tighter than \<open>or\<close>.
\<close>

definition get_node_and_parent ::
  "int \<Rightarrow> node_row list \<Rightarrow> string \<Rightarrow> error + (node_row option \<times> node_row option)" where
  "get_node_and_parent space_id nodes path =
     (let path_list = filter_None (split CHR ''/'' path)
      in if path_list = [] then Inl (VOSpaceError 400 ''Invalid URI. Path is empty'')
         else
           let path_parent = butlast path_list;
               path_parent_tree = join ''.'' path_parent;
               path_tree = join ''.'' path_list;
               result = sort_key r_path
                          (filter (\<lambda>r. r_path r = path_tree
                                        \<or> (r_path r = path_parent_tree \<and> r_space_id r = space_id))
                                  nodes)
           in if length result = 1 then
                (if path_parent_tree \<noteq> [] then
                   (if r_path (result ! 0) = path_parent_tree
                    then Inr (Some (result ! 0), None)
                    else Inl AssertionError)
                 else Inr (None, Some (result ! 0)))
              else if length result = 2 then Inr (Some (result ! 0), Some (result ! 1))
              else Inr (None, None))"

text \<open>The rows a result of \<open>_get_node_and_parent\<close> carries.\<close>

definition rows_of :: "node_row option \<times> node_row option \<Rightarrow> node_row list" where
  "rows_of res =
     (case fst res of None \<Rightarrow> [] | Some r \<Rightarrow> [r]) @ (case snd res of None \<Rightarrow> [] | Some r \<Rightarrow> [r])"

subsection \<open>update_properties\<close>

text \<open>The \<open>node_type\<close> property of the six classes.\<close>

definition node_type :: "node \<Rightarrow> int" where
  "node_type n =
     (case n_class n of
        NodeC \<Rightarrow> 0 | DataNodeC \<Rightarrow> 1 | UnstructuredDataNodeC \<Rightarrow> 2
      | StructuredDataNodeC \<Rightarrow> 3 | ContainerNodeC \<Rightarrow> 4 | LinkNodeC \<Rightarrow> 5)"

text \<open>The assignments \<open>node.owner = ...\<close>, \<open>node.group_read = ...\<close>,
  \<open>node.group_write = ...\<close>; the group setters store the empty list for \<open>None\<close>.\<close>

definition set_owner_groups ::
  "node \<Rightarrow> string option \<Rightarrow> string list option \<Rightarrow> string list option \<Rightarrow> node" where
  "set_owner_groups n owner group_read group_write =
     NodeObj (n_class n) (n_path n) (n_properties n) owner
       (case group_read of None \<Rightarrow> [] | Some g \<Rightarrow> g)
       (case group_write of None \<Rightarrow> [] | Some g \<Rightarrow> g)
       (n_busy n) (n_accepts n) (n_provides n) (n_target n) (n_nodes n)"

text \<open>
  SQL comparisons are three-valued: a comparison with \<open>NULL\<close> is \<open>NULL\<close>, and a \<open>where\<close>
  clause selects a row only when its condition is true.
\<close>

definition sql_eq :: "'a option \<Rightarrow> 'a option \<Rightarrow> bool option" where
  "sql_eq a b = (case a of None \<Rightarrow> None
                 | Some x \<Rightarrow> (case b of None \<Rightarrow> None | Some y \<Rightarrow> Some (x = y)))"

definition sql_ne :: "'a option \<Rightarrow> 'a option \<Rightarrow> bool option" where
  "sql_ne a b = (case a of None \<Rightarrow> None
                 | Some x \<Rightarrow> (case b of None \<Rightarrow> None | Some y \<Rightarrow> Some (x \<noteq> y)))"

definition sql_and :: "bool option \<Rightarrow> bool option \<Rightarrow> bool option" where
  "sql_and a b =
     (if a = Some False \<or> b = Some False then Some False
      else if a = Some True \<and> b = Some True then Some True
      else None)"

definition sql_true :: "bool option \<Rightarrow> bool" where
  "sql_true a = (a = Some True)"

text \<open>
  One execution of
  \<open>INSERT INTO properties (uri, value, read_only, node_path, space_id) VALUES ($1..$5)
   on conflict (uri, node_path, space_id) do update set value=$2
   where properties.read_only=False and properties.value!=$2\<close>:
  without a row of the same (uri, node_path, space_id) the new row is inserted; with
  one, its value is set where the \<open>where\<close> condition is true and nothing is written
  otherwise.
\<close>

definition conflicts :: "property_row \<Rightarrow> property_row \<Rightarrow> bool" where
  "conflicts r new =
     (q_uri r = q_uri new \<and> q_node_path r = q_node_path new \<and> q_space_id r = q_space_id new)"

definition do_update :: "property_row \<Rightarrow> property_row \<Rightarrow> property_row" where
  "do_update r new =
     (if sql_true (sql_and (sql_eq (q_read_only r) (Some False))
                           (sql_ne (q_value r) (q_value new)))
      then PropertyRow (q_uri r) (q_value new) (q_read_only r) (q_node_path r) (q_space_id r)
      else r)"

definition upsert_property :: "property_row list \<Rightarrow> property_row \<Rightarrow> property_row list" where
  "upsert_property tbl new =
     (if list_ex (\<lambda>r. conflicts r new) tbl
      then map (\<lambda>r. if conflicts r new then do_update r new else r) tbl
      else tbl @ [new])"

text \<open>\<open>executemany\<close> runs the statement once for each argument list, in order.\<close>

definition executemany_upsert :: "property_row list \<Rightarrow> property_row list \<Rightarrow> property_row list" where
  "executemany_upsert tbl news = foldl upsert_property tbl news"

text \<open>\<open>DELETE FROM properties WHERE uri=any($1::text[]) AND node_path=$2 and space_id=$3
  and read_only=False\<close>.\<close>

definition delete_matches :: "string list \<Rightarrow> string \<Rightarrow> int \<Rightarrow> property_row \<Rightarrow> bool" where
  "delete_matches uris node_path space_id r =
     (q_uri r \<in> set uris \<and> q_node_path r = node_path \<and> q_space_id r = space_id
      \<and> sql_true (sql_eq (q_read_only r) (Some False)))"

definition execute_delete ::
  "property_row list \<Rightarrow> string list \<Rightarrow> string \<Rightarrow> int \<Rightarrow> property_row list" where
  "execute_delete tbl uris node_path space_id =
     filter (\<lambda>r. \<not> delete_matches uris node_path space_id r) tbl"

text \<open>
  \<open>update_properties\<close>, on the \<open>nodes\<close> and \<open>properties\<close> tables; it returns the
  \<open>properties\<close> table it leaves. \<open>app_permits\<close> is the application's permission hook
  \<open>self.app.permits(identity, permission, context)\<close>.
\<close>

definition node_props_delete :: "node \<Rightarrow> string list" where
  "node_props_delete node = map p_uri (filter p_delete (n_properties node))"

definition node_props_insert :: "node \<Rightarrow> string \<Rightarrow> int \<Rightarrow> property_row list" where
  "node_props_insert node node_path_tree space_id =
     map (\<lambda>prop. PropertyRow (p_uri prop) (p_value prop) (p_read_only prop)
                    node_path_tree space_id)
         (filter (\<lambda>prop. \<not> p_delete prop) (n_properties node))"

definition update_properties ::
  "int \<Rightarrow> (string \<Rightarrow> string \<Rightarrow> node \<Rightarrow> error + bool) \<Rightarrow> node_row list \<Rightarrow>
   property_row list \<Rightarrow> node \<Rightarrow> string \<Rightarrow> error + property_row list" where
  "update_properties space_id app_permits nodes props node identity =
     (case path_to_ltree (n_path node) of
        Inl e \<Rightarrow> Inl e
      | Inr node_path_tree \<Rightarrow>
          (case find (\<lambda>r. r_path r = node_path_tree \<and> r_type r = node_type node
                           \<and> r_space_id r = space_id) nodes of
             None \<Rightarrow> Inl (NodeDoesNotExistError (n_path node @ '' not found.''))
           | Some results \<Rightarrow>
               (case app_permits identity ''setNode''
                       (set_owner_groups node (r_owner results) (r_groupread results)
                          (r_groupwrite results)) of
                  Inl e \<Rightarrow> Inl e
                | Inr allowed \<Rightarrow>
                    if \<not> allowed then Inl (PermissionDenied ''setNode denied.'')
                    else Inr (execute_delete
                                (executemany_upsert props
                                   (node_props_insert node node_path_tree space_id))
                                (node_props_delete node) node_path_tree space_id))))"

text \<open>What the statements of one \<open>executemany\<close> make of one stored row, in order.\<close>

definition row_after_upserts :: "property_row \<Rightarrow> property_row list \<Rightarrow> property_row" where
  "row_after_upserts r news =
     foldl (\<lambda>x new. if conflicts x new then do_update x new else x) r news"

section \<open>NGAS stream wrapper (pyvospace/server/spaces/ngas/utils.py)\<close>

text \<open>
  The inbound stream is the list of the bytes it will deliver before end of file.
  \<open>readexactly(n)\<close> returns the next \<open>n\<close> bytes, or raises \<open>IncompleteReadError\<close> when
  the stream ends before that. \<open>io.DEFAULT_BUFFER_SIZE\<close> is 8192.
\<close>

type_synonym bytes = "char list"

definition DEFAULT_BUFFER_SIZE :: int where
  "DEFAULT_BUFFER_SIZE = 8192"

definition readexactly :: "nat \<Rightarrow> bytes \<Rightarrow> error + (bytes \<times> bytes)" where
  "readexactly n content =
     (if n \<le> length content then Inr (take n content, drop n content)
      else Inl IncompleteReadError)"

datatype ControlledReader =
  ControlledReaderObj (cr_content: bytes) (cr_content_length: int) (cr_bytes_read: int)

definition new_ControlledReader :: "bytes \<Rightarrow> int \<Rightarrow> ControlledReader" where
  "new_ControlledReader content content_length = ControlledReaderObj content content_length 0"

text \<open>\<open>__anext__\<close>: \<open>None\<close> is \<open>StopAsyncIteration\<close>, \<open>Some buffer\<close> the chunk returned;
  the reader comes back with its source and counter advanced.\<close>

definition anext :: "ControlledReader \<Rightarrow> error + (bytes option \<times> ControlledReader)" where
  "anext r =
     (let bytes_to_read = min DEFAULT_BUFFER_SIZE (cr_content_length r - cr_bytes_read r)
      in if bytes_to_read \<le> 0 then Inr (None, r)
         else case readexactly (nat bytes_to_read) (cr_content r) of
                Inl e \<Rightarrow> Inl e
              | Inr (buffer, rest) \<Rightarrow>
                  Inr (Some buffer,
                       ControlledReaderObj rest (cr_content_length r)
                         (cr_bytes_read r + bytes_to_read)))"

text \<open>\<open>async for chunk in reader\<close>: the chunks produced until end of stream, and the
  reader as the loop leaves it.\<close>

function iterate :: "ControlledReader \<Rightarrow> error + (bytes list \<times> ControlledReader)" where
  "iterate r =
     (case anext r of
        Inl e \<Rightarrow> Inl e
      | Inr (None, r') \<Rightarrow> Inr ([], r')
      | Inr (Some buffer, r') \<Rightarrow>
          (case iterate r' of
             Inl e \<Rightarrow> Inl e
           | Inr (chunks, r'') \<Rightarrow> Inr (buffer # chunks, r'')))"
  by pat_completeness auto
termination
proof (relation "measure (\<lambda>r. nat (cr_content_length r - cr_bytes_read r))")
  show "wf (measure (\<lambda>r. nat (cr_content_length r - cr_bytes_read r)))"
    by simp
next
  fix r x2 x1 x2a r'
  assume "anext r = Inr x2" and "(x1, r') = x2" and "x1 = Some x2a"
  then show "(r', r) \<in> measure (\<lambda>r. nat (cr_content_length r - cr_bytes_read r))"
    by (auto simp: anext_def Let_def DEFAULT_BUFFER_SIZE_def
             split: if_splits sum.splits prod.splits)
qed

declare iterate.simps [simp del]

section \<open>POSIX authorization policy (pyvospace/server/spaces/posix/auth.py)\<close>

definition PROTECTED_URI :: "string list" where
  "PROTECTED_URI =
     [''ivo://ivoa.net/vospace/core#creator'',
      ''ivo://ivoa.net/vospace/core#type'',
      ''ivo://ivoa.net/vospace/core#format'',
      ''ivo://ivoa.net/vospace/core#identifier'',
      ''ivo://ivoa.net/vospace/core#source'',
      ''ivo://ivoa.net/vospace/core#language'',
      ''ivo://ivoa.net/vospace/core#relation'',
      ''ivo://ivoa.net/vospace/core#coverage'',
      ''ivo://ivoa.net/vospace/core#rights'',
      ''ivo://ivoa.net/vospace/core#availableSpace'',
      ''ivo://ivoa.net/vospace/core#groupread'',
      ''ivo://ivoa.net/vospace/core#groupwrite'',
      ''ivo://ivoa.net/vospace/core#publicread'',
      ''ivo://ivoa.net/vospace/core#quota'',
      ''ivo://ivoa.net/vospace/core#length'',
      ''ivo://ivoa.net/vospace/core#mtime'',
      ''ivo://ivoa.net/vospace/core#ctime'',
      ''ivo://ivoa.net/vospace/core#btime'']"

text \<open>The rows of the \<open>users\<close> table, and the policy's
  \<open>select * from users where username=$1 and space_name=$2\<close> read with \<open>fetchrow\<close>.\<close>

datatype user_row =
  UserRow (u_username: string) (u_space_name: string) (u_password: string) (u_admin: bool)
          (u_groupread: "string list") (u_groupwrite: "string list")

definition fetchrow_user :: "user_row list \<Rightarrow> string \<Rightarrow> string \<Rightarrow> user_row option" where
  "fetchrow_user users identity space_name =
     find (\<lambda>u. u_username u = identity \<and> u_space_name u = space_name) users"

text \<open>
  The context the persistence layer hands to the policy is made of the model's own
  objects: a pair (parent, node) of nodes for \<open>createNode\<close>, where \<open>insert\<close> passes \<open>None\<close>
  as the parent of a root-level node, a pair (src, dest) for \<open>moveNode\<close> and
  \<open>copyNode\<close>, a node, a job, or nothing. Of a job the policy reads the attributes
  \<open>owner\<close> and \<open>transfer\<close> of a \<open>UWSJob\<close>.
\<close>

datatype policy_job = PolicyJob (cj_owner: "string option") (cj_transfer: "transfer option")

datatype policy_context =
    CtxNone
  | CtxNode node
  | CtxPair "node option" node
  | CtxJob policy_job

text \<open>
  \<open>node.properties.values()\<close>: the \<open>properties\<close> of a node is its list \<open>_properties\<close>,
  and a Python list has no attribute \<open>values\<close>, so the expression raises
  \<open>AttributeError\<close> whatever the list holds.
\<close>

definition list_values :: "property list \<Rightarrow> error + property list" where
  "list_values ps = Inl AttributeError"

definition any_value_in_lists :: "string list \<Rightarrow> string list \<Rightarrow> bool" where
  "any_value_in_lists a b = list_ex (\<lambda>i. i \<in> set a) b"

definition any_property_in_protected :: "property list \<Rightarrow> bool" where
  "any_property_in_protected a = list_ex (\<lambda>i. p_uri i \<in> set PROTECTED_URI) a"

text \<open>
  \<open>permits\<close>. \<open>users\<close> is the table the policy queries and \<open>space_name\<close> its space;
  \<open>root_dir\<close> and \<open>on_disk\<close>, the paths that exist, stand for the file system
  \<open>getNode\<close> reads (\<open>lstat\<close> and \<open>statvfs\<close> of the node's real path raise \<open>OSError\<close>
  when it is missing).
  Reading an attribute or an index of a context of the wrong shape raises.
\<close>

definition permits ::
  "user_row list \<Rightarrow> string \<Rightarrow> string \<Rightarrow> string list \<Rightarrow>
   string \<Rightarrow> string \<Rightarrow> policy_context \<Rightarrow> error + bool" where
  "permits users space_name root_dir on_disk identity permission ctx =
     (case fetchrow_user users identity space_name of
        None \<Rightarrow> Inl (HTTPForbidden (identity @ '' not found.''))
      | Some user \<Rightarrow>
          if permission = ''createNode'' then
            (case ctx of
               CtxPair parent node \<Rightarrow>
                 (case list_values (n_properties node) of
                    Inl e \<Rightarrow> Inl e
                  | Inr vs \<Rightarrow>
                      if any_property_in_protected vs then Inr False
                      else (case parent of
                              None \<Rightarrow> Inl AttributeError
                            | Some par \<Rightarrow>
                                if n_path par = ''/'' \<and> u_admin user then Inr True
                                else if n_owner par = Some identity then Inr True
                                else Inr (any_value_in_lists (n_group_write par)
                                            (u_groupwrite user))))
             | _ \<Rightarrow> Inl TypeError)
          else if permission = ''setNode'' then
            (case ctx of
               CtxNode node \<Rightarrow>
                 (case list_values (n_properties node) of
                    Inl e \<Rightarrow> Inl e
                  | Inr vs \<Rightarrow>
                      if any_property_in_protected vs then Inr False
                      else if n_owner node = Some identity then Inr True
                      else Inr (any_value_in_lists (n_group_write node) (u_groupwrite user)))
             | _ \<Rightarrow> Inl AttributeError)
          else if permission = ''getNode'' then
            (case ctx of
               CtxNode node \<Rightarrow>
                 if normpath (root_dir @ ''/'' @ n_path node) \<in> set on_disk then Inr True
                 else Inl OSError
             | _ \<Rightarrow> Inl AttributeError)
          else if permission = ''moveNode'' \<or> permission = ''copyNode'' then
            (case ctx of
               CtxPair (Some src) dest \<Rightarrow>
                 if n_path dest = ''/'' \<and> u_admin user then Inr True
                 else if n_owner src = Some identity \<and> n_owner dest = Some identity then Inr True
                 else if any_value_in_lists (n_group_write src) (u_groupwrite user)
                         \<and> any_value_in_lists (n_group_write dest) (u_groupwrite user)
                   then Inr True
                 else Inr False
             | CtxPair None dest \<Rightarrow>
                 if n_path dest = ''/'' \<and> u_admin user then Inr True else Inl AttributeError
             | _ \<Rightarrow> Inl TypeError)
          else if permission = ''createTransfer'' then Inr True
          else if permission = ''deleteNode'' then
            (case ctx of
               CtxNode node \<Rightarrow>
                 if n_owner node = Some identity then Inr True
                 else Inr (any_value_in_lists (n_group_write node) (u_groupwrite user))
             | _ \<Rightarrow> Inl AttributeError)
          else if permission = ''dataTransfer'' then
            (case ctx of
               CtxJob job \<Rightarrow>
                 (case cj_transfer job of
                    None \<Rightarrow> Inl AttributeError
                  | Some transfer \<Rightarrow>
                      if n_owner (t_target transfer) = Some identity then Inr True
                      else if is_PushToSpace transfer
                        then Inr (any_value_in_lists (n_group_write (t_target transfer))
                                    (u_groupwrite user))
                      else Inr (any_value_in_lists (n_group_read (t_target transfer))
                                    (u_groupread user)
                                \<or> any_value_in_lists (n_group_write (t_target transfer))
                                    (u_groupwrite user)))
             | _ \<Rightarrow> Inl AttributeError)
          else if permission = ''runJob'' \<or> permission = ''abortJob'' then
            (case ctx of
               CtxJob job \<Rightarrow> Inr (cj_owner job = Some identity)
             | _ \<Rightarrow> Inl AttributeError)
          else Inr False)"

section \<open>Verification\<close>

subsection \<open>Evaluating the path primitives\<close>

lemma uri_to_path_a_b: "uri_to_path ''/a/b'' = Inr ''a/b''"
  by code_simp


lemma Node_a: "Node ''/a'' = Inr (NodeObj NodeC ''a'' [] None [] [] False [] [] None [])"
  by code_simp

lemma Node_other_path:
  "Node ''/other/path'' = Inr (NodeObj NodeC ''other/path'' [] None [] [] False [] [] None [])"
  by code_simp

subsection \<open>Transfer.create_transfer\<close>

text \<open>
  C7, as claimed, fails on the kind of the failure: for the directions
  \<open>pushFromVoSpace\<close> and \<open>pullToVoSpace\<close> the code raises Python's
  \<open>NotImplementedError\<close>, which is not a \<open>VOSpaceError\<close>.
\<close>

theorem create_transfer_not_VOSpaceError:
  "create_transfer ''/a'' ''pushFromVoSpace'' None = Inl NotImplementedError
   \<and> \<not> is_VOSpaceError NotImplementedError"
  by (simp add: create_transfer_def)

text \<open>
  C7 (amended): \<open>create_transfer\<close> maps \<open>pushToVoSpace\<close> to a \<open>PushToSpace\<close> and
  \<open>pullFromVoSpace\<close> to a \<open>PullFromSpace\<close> on the node of the target; any direction
  other than the four names yields a \<open>Copy\<close> when \<open>keep_bytes\<close> is true and a \<open>Move\<close>
  when it is false or absent, on the nodes of target and direction; and for every
  target and every \<open>keep_bytes\<close> the directions \<open>pushFromVoSpace\<close> and \<open>pullToVoSpace\<close>
  fail with \<open>NotImplementedError\<close>.
\<close>

theorem create_transfer_dispatch:
  "create_transfer target ''pushFromVoSpace'' keep_bytes = Inl NotImplementedError
   \<and> create_transfer target ''pullToVoSpace'' keep_bytes = Inl NotImplementedError
   \<and> (Node target = Inr t \<longrightarrow>
        create_transfer target ''pushToVoSpace'' keep_bytes = Inr (PushToSpace t [] None [])
        \<and> create_transfer target ''pullFromVoSpace'' keep_bytes
            = Inr (PullFromSpace t [] None [] True))
   \<and> (Node target = Inr t \<and> Node direction = Inr d
        \<and> direction \<notin> {''pushToVoSpace'', ''pullFromVoSpace'', ''pushFromVoSpace'',
                          ''pullToVoSpace''} \<longrightarrow>
        create_transfer target direction (Some True) = Inr (Copy t d)
        \<and> create_transfer target direction (Some False) = Inr (Move t d)
        \<and> create_transfer target direction None = Inr (Move t d))"
  by (simp add: create_transfer_def)

theorem create_transfer_dispatch_witness:
  "Node ''/a'' = Inr (NodeObj NodeC ''a'' [] None [] [] False [] [] None [])
   \<and> Node ''/other/path'' = Inr (NodeObj NodeC ''other/path'' [] None [] [] False [] [] None [])
   \<and> create_transfer ''/a'' ''pushToVoSpace'' None
       = Inr (PushToSpace (NodeObj NodeC ''a'' [] None [] [] False [] [] None []) [] None [])
   \<and> create_transfer ''/a'' ''/other/path'' (Some True)
       = Inr (Copy (NodeObj NodeC ''a'' [] None [] [] False [] [] None [])
                   (NodeObj NodeC ''other/path'' [] None [] [] False [] [] None []))
   \<and> create_transfer ''/a'' ''/other/path'' None
       = Inr (Move (NodeObj NodeC ''a'' [] None [] [] False [] [] None [])
                   (NodeObj NodeC ''other/path'' [] None [] [] False [] [] None []))
   \<and> create_transfer ''/a'' ''pullToVoSpace'' (Some True) = Inl NotImplementedError"
  using create_transfer_dispatch [of "''/a''" None
          "NodeObj NodeC ''a'' [] None [] [] False [] [] None []" "''/other/path''"
          "NodeObj NodeC ''other/path'' [] None [] [] False [] [] None []"]
        create_transfer_dispatch [of "''/a''" "Some True"
          "NodeObj NodeC ''a'' [] None [] [] False [] [] None []" "''/other/path''"
          "NodeObj NodeC ''other/path'' [] None [] [] False [] [] None []"]
        Node_a Node_other_path
  by simp

subsection \<open>ProtocolTransfer.tomap\<close>

text \<open>
  C10: \<open>ProtocolTransfer.tomap\<close> reads the first element of the protocols list
  unconditionally: on a \<open>ProtocolTransfer\<close> it fails with \<open>IndexError\<close> exactly when
  the list is empty, and returns a map exactly when at least one protocol is present.
\<close>

theorem tomap_reads_first_protocol:
  "is_ProtocolTransfer t \<Longrightarrow>
     (t_protocols t = [] \<longrightarrow> tomap t = Inl IndexError)
     \<and> (t_protocols t \<noteq> [] \<longrightarrow>
          (\<exists>m. tomap t = Inr m \<and> map_of m ''PROTOCOL'' = Some (pc_uri (hd (t_protocols t)))))"
  by (cases t) (auto split: list.splits)

theorem tomap_reads_first_protocol_witness:
  "is_ProtocolTransfer (PushToSpace (NodeObj NodeC ''a'' [] None [] [] False [] [] None []) [] None [])
   \<and> tomap (PushToSpace (NodeObj NodeC ''a'' [] None [] [] False [] [] None []) [] None [])
       = Inl IndexError
   \<and> tomap (PullFromSpace (NodeObj NodeC ''a'' [] None [] [] False [] [] None [])
              [ProtocolObj HTTPGet ''ivo://ivoa.net/vospace/core#httpget'' None None] None [] True)
       = Inr [(''TARGET'', ''a''), (''DIRECTION'', ''pullFromVoSpace''),
              (''PROTOCOL'', ''ivo://ivoa.net/vospace/core#httpget''),
              (''REQUEST'', ''redirect'')]"
  using tomap_reads_first_protocol
          [of "PushToSpace (NodeObj NodeC ''a'' [] None [] [] False [] [] None []) [] None []"]
  by simp


subsection \<open>ControlledReader\<close>

lemma anext_stop:
  "cr_content_length r - cr_bytes_read r \<le> 0 \<Longrightarrow> anext r = Inr (None, r)"
  by (simp add: anext_def Let_def DEFAULT_BUFFER_SIZE_def)

lemma anext_chunk:
  assumes "0 < cr_content_length r - cr_bytes_read r"
    and "cr_content_length r - cr_bytes_read r \<le> int (length (cr_content r))"
  shows "anext r =
           Inr (Some (take (nat (min DEFAULT_BUFFER_SIZE (cr_content_length r - cr_bytes_read r)))
                        (cr_content r)),
                ControlledReaderObj
                  (drop (nat (min DEFAULT_BUFFER_SIZE (cr_content_length r - cr_bytes_read r)))
                     (cr_content r))
                  (cr_content_length r)
                  (cr_bytes_read r + min DEFAULT_BUFFER_SIZE (cr_content_length r - cr_bytes_read r)))"
  using assms
  by (auto simp: anext_def Let_def DEFAULT_BUFFER_SIZE_def readexactly_def)

lemma iterate_exhausts:
  "cr_content_length r - cr_bytes_read r \<le> int (length (cr_content r)) \<Longrightarrow>
   \<exists>chunks r'.
      iterate r = Inr (chunks, r')
      \<and> concat chunks = take (nat (cr_content_length r - cr_bytes_read r)) (cr_content r)
      \<and> list_all (\<lambda>c. int (length c) \<le> DEFAULT_BUFFER_SIZE) chunks
      \<and> cr_content r' = drop (nat (cr_content_length r - cr_bytes_read r)) (cr_content r)
      \<and> anext r' = Inr (None, r')"
proof (induction r rule: iterate.induct)
  case (1 r)
  let ?left = "cr_content_length r - cr_bytes_read r"
  show ?case
  proof (cases "?left \<le> 0")
    case True
    then have "anext r = Inr (None, r)" by (rule anext_stop)
    then show ?thesis using True by (simp add: iterate.simps[of r])
  next
    case False
    let ?k = "min DEFAULT_BUFFER_SIZE ?left"
    let ?buf = "take (nat ?k) (cr_content r)"
    let ?r1 = "ControlledReaderObj (drop (nat ?k) (cr_content r)) (cr_content_length r)
                 (cr_bytes_read r + ?k)"
    have step: "anext r = Inr (Some ?buf, ?r1)"
      using False "1.prems" by (intro anext_chunk) auto
    have kpos: "0 < ?k" "?k \<le> ?left" using False by (auto simp: DEFAULT_BUFFER_SIZE_def)
    have pre: "cr_content_length ?r1 - cr_bytes_read ?r1 \<le> int (length (cr_content ?r1))"
      using "1.prems" kpos by auto
    from "1.IH"[OF step refl refl pre]
    obtain chunks r' where it: "iterate ?r1 = Inr (chunks, r')"
      and cc: "concat chunks = take (nat (cr_content_length ?r1 - cr_bytes_read ?r1)) (cr_content ?r1)"
      and la: "list_all (\<lambda>c. int (length c) \<le> DEFAULT_BUFFER_SIZE) chunks"
      and rest: "cr_content r' = drop (nat (cr_content_length ?r1 - cr_bytes_read ?r1)) (cr_content ?r1)"
      and stop: "anext r' = Inr (None, r')"
      by blast
    have eq: "nat (?left - ?k) + nat ?k = nat ?left" using kpos by auto
    have it0: "iterate r = Inr (?buf # chunks, r')"
      using step it by (simp add: iterate.simps[of r])
    have c1: "concat (?buf # chunks) = take (nat ?left) (cr_content r)"
    proof -
      have "concat (?buf # chunks) = ?buf @ take (nat (?left - ?k)) (drop (nat ?k) (cr_content r))"
        using cc by (simp add: algebra_simps)
      also have "\<dots> = take (nat ?k + nat (?left - ?k)) (cr_content r)"
        by (simp add: take_add)
      finally show ?thesis using eq by (simp add: add.commute)
    qed
    have c2: "cr_content r' = drop (nat ?left) (cr_content r)"
    proof -
      have "cr_content r' = drop (nat (?left - ?k)) (drop (nat ?k) (cr_content r))"
        using rest by (simp add: algebra_simps)
      then show ?thesis using eq by (simp add: add.commute)
    qed
    have c3: "int (length ?buf) \<le> DEFAULT_BUFFER_SIZE" using kpos by (auto simp: DEFAULT_BUFFER_SIZE_def min_def)
    show ?thesis using it0 c1 c2 c3 la stop by simp
  qed
qed

text \<open>
  C9: for every content length \<open>N > 0\<close> and every source holding at least \<open>N\<close> bytes,
  iterating a \<open>ControlledReader\<close> to exhaustion returns: the chunks are at most the
  default buffer size each, together they are the first \<open>N\<close> bytes of the source
  (so their total length is exactly \<open>N\<close>), and the reader then signals end of stream,
  whatever further bytes the source holds.
\<close>

theorem ControlledReader_yields_content_length:
  assumes "0 < N" and "N \<le> int (length content)"
  shows "\<exists>chunks r'.
           iterate (new_ControlledReader content N) = Inr (chunks, r')
           \<and> length (concat chunks) = nat N
           \<and> concat chunks = take (nat N) content
           \<and> list_all (\<lambda>c. int (length c) \<le> DEFAULT_BUFFER_SIZE) chunks
           \<and> cr_content r' = drop (nat N) content
           \<and> anext r' = Inr (None, r')"
proof -
  have "cr_content_length (new_ControlledReader content N)
          - cr_bytes_read (new_ControlledReader content N)
        \<le> int (length (cr_content (new_ControlledReader content N)))"
    using assms by (simp add: new_ControlledReader_def)
  from iterate_exhausts[OF this]
  obtain chunks r' where
    "iterate (new_ControlledReader content N) = Inr (chunks, r')"
    "concat chunks = take (nat N) content"
    "list_all (\<lambda>c. int (length c) \<le> DEFAULT_BUFFER_SIZE) chunks"
    "cr_content r' = drop (nat N) content"
    "anext r' = Inr (None, r')"
    by (auto simp: new_ControlledReader_def)
  moreover from this(2) have "length (concat chunks) = nat N"
    using assms by simp
  ultimately show ?thesis by blast
qed

theorem ControlledReader_yields_content_length_witness:
  "(0::int) < 3 \<and> 3 \<le> int (length ''abcde'')
   \<and> (\<exists>chunks r'.
         iterate (new_ControlledReader ''abcde'' 3) = Inr (chunks, r')
         \<and> concat chunks = ''abc'' \<and> cr_content r' = ''de''
         \<and> anext r' = Inr (None, r'))"
proof -
  have "(0::int) < 3" and "3 \<le> int (length ''abcde'')" by simp_all
  from ControlledReader_yields_content_length [OF this]
  obtain chunks r' where
    "iterate (new_ControlledReader ''abcde'' 3) = Inr (chunks, r')"
    "concat chunks = take (nat 3) ''abcde''"
    "cr_content r' = drop (nat 3) ''abcde''"
    "anext r' = Inr (None, r')"
    by blast
  then show ?thesis by (simp add: numeral_3_eq_3)
qed


subsection \<open>The authorization policy and protected properties\<close>

lemma any_property_in_protected_iff:
  "any_property_in_protected ps \<longleftrightarrow> (\<exists>p \<in> set ps. p_uri p \<in> set PROTECTED_URI)"
  by (simp add: any_property_in_protected_def list_ex_iff)

text \<open>
  C1 fails on the code: for an identity that has a user row in the space, a
  \<open>createNode\<close> request (context: any parent and the node) and a \<open>setNode\<close> request
  (context: the node) do not return false for a node that carries a protected
  property. For every node the call \<open>node.properties.values()\<close> raises
  \<open>AttributeError\<close> before the protected list is consulted, so \<open>permits\<close> returns no
  decision at all, whatever the ownership, the admin flag and the groups.
\<close>

theorem permits_protected_property_raises:
  assumes "fetchrow_user users identity space_name = Some user"
    and "p \<in> set (n_properties node)" and "p_uri p \<in> set PROTECTED_URI"
  shows "permits users space_name root_dir on_disk identity ''createNode''
           (CtxPair parent node) = Inl AttributeError
         \<and> permits users space_name root_dir on_disk identity ''setNode''
           (CtxNode node) = Inl AttributeError"
  using assms(1) by (simp add: permits_def list_values_def)

theorem permits_protected_property_raises_witness:
  "fetchrow_user [UserRow ''alice'' ''myspace'' ''hash'' True [''g1''] [''g1'']]
        ''alice'' ''myspace''
       = Some (UserRow ''alice'' ''myspace'' ''hash'' True [''g1''] [''g1''])
   \<and> ''ivo://ivoa.net/vospace/core#length'' \<in> set PROTECTED_URI
   \<and> permits [UserRow ''alice'' ''myspace'' ''hash'' True [''g1''] [''g1'']]
        ''myspace'' ''/data'' [] ''alice'' ''createNode''
        (CtxPair (Some (NodeObj ContainerNodeC ''a'' [] (Some ''alice'') [] [''g1''] False
                          [] [] None []))
           (NodeObj NodeC ''a/b''
              [PropertyObj ''ivo://ivoa.net/vospace/core#length'' (Some ''1'') (Some False)
                 True False]
              (Some ''alice'') [] [''g1''] False [] [] None []))
       = Inl AttributeError
   \<and> permits [UserRow ''alice'' ''myspace'' ''hash'' True [''g1''] [''g1'']]
        ''myspace'' ''/data'' [] ''alice'' ''setNode''
        (CtxNode
           (NodeObj NodeC ''a/b''
              [PropertyObj ''ivo://ivoa.net/vospace/core#length'' (Some ''1'') (Some False)
                 True False]
              (Some ''alice'') [] [''g1''] False [] [] None []))
       = Inl AttributeError"
  using permits_protected_property_raises
    [where users = "[UserRow ''alice'' ''myspace'' ''hash'' True [''g1''] [''g1'']]"
       and identity = "''alice''" and space_name = "''myspace''"
       and user = "UserRow ''alice'' ''myspace'' ''hash'' True [''g1''] [''g1'']"
       and p = "PropertyObj ''ivo://ivoa.net/vospace/core#length'' (Some ''1'') (Some False)
                  True False"
       and node = "NodeObj NodeC ''a/b''
              [PropertyObj ''ivo://ivoa.net/vospace/core#length'' (Some ''1'') (Some False)
                 True False]
              (Some ''alice'') [] [''g1''] False [] [] None []"
       and root_dir = "''/data''" and on_disk = "[]"
       and parent = "Some (NodeObj ContainerNodeC ''a'' [] (Some ''alice'') [] [''g1''] False
                          [] [] None [])"]
  by (simp add: fetchrow_user_def PROTECTED_URI_def)

subsection \<open>update_properties\<close>

lemma conflicts_sym: "conflicts a b = conflicts b a"
  by (auto simp: conflicts_def)

lemma conflicts_do_update [simp]: "conflicts (do_update x new) r = conflicts x r"
  by (simp add: do_update_def conflicts_def)

lemma read_only_do_update [simp]: "q_read_only (do_update x new) = q_read_only x"
  by (simp add: do_update_def)

lemma do_update_not_writable:
  "q_read_only x \<noteq> Some False \<Longrightarrow> do_update x new = x"
  by (cases "q_read_only x")
     (auto simp: do_update_def sql_true_def sql_and_def sql_eq_def)

lemma do_update_writable:
  "q_read_only x = Some False \<Longrightarrow>
   do_update x new =
     PropertyRow (q_uri x)
       (if sql_true (sql_ne (q_value x) (q_value new)) then q_value new else q_value x)
       (Some False) (q_node_path x) (q_space_id x)"
  by (cases x) (auto simp: do_update_def sql_true_def sql_and_def sql_eq_def sql_ne_def
                     split: option.splits)

text \<open>The rows of one key through one upsert.\<close>

lemma upsert_property_only_row:
  assumes "r \<in> set tbl" and "\<forall>x \<in> set tbl. conflicts x r \<longrightarrow> x = r"
  shows "(if conflicts r new then do_update r new else r) \<in> set (upsert_property tbl new)"
    and "\<forall>x \<in> set (upsert_property tbl new).
           conflicts x (if conflicts r new then do_update r new else r) \<longrightarrow>
           x = (if conflicts r new then do_update r new else r)"
proof -
  let ?f = "\<lambda>x. if conflicts x new then do_update x new else x"
  have key: "conflicts (?f x) y = conflicts x y" for x y by simp
  have keyr: "conflicts y (?f r) = conflicts y r" for y
    using key[of r y] by (simp add: conflicts_sym[of y])
  show "?f r \<in> set (upsert_property tbl new)"
  proof (cases "list_ex (\<lambda>x. conflicts x new) tbl")
    case True
    then show ?thesis using assms(1) by (simp add: upsert_property_def)
  next
    case False
    then have "\<not> conflicts r new" using assms(1) by (auto simp: list_ex_iff)
    then show ?thesis using assms(1) False by (simp add: upsert_property_def)
  qed
  show "\<forall>x \<in> set (upsert_property tbl new). conflicts x (?f r) \<longrightarrow> x = ?f r"
  proof (cases "list_ex (\<lambda>x. conflicts x new) tbl")
    case True
    have "x' = ?f r" if "x' \<in> set (map ?f tbl)" "conflicts x' r" for x'
    proof -
      from that(1) obtain x where x: "x \<in> set tbl" "x' = ?f x" by auto
      then have "conflicts x r" using that(2) key[of x r] by simp
      then have "x = r" using assms(2) x(1) by blast
      then show ?thesis using x(2) by simp
    qed
    then show ?thesis using True by (simp add: upsert_property_def keyr del: set_map)
  next
    case False
    then have nc: "\<not> conflicts r new" using assms(1) by (auto simp: list_ex_iff)
    then have "\<not> conflicts new r" by (simp add: conflicts_sym[of new])
    then show ?thesis using False nc assms(2) by (auto simp: upsert_property_def)
  qed
qed


lemma conflicts_row_after_upserts [simp]:
  "conflicts (row_after_upserts r news) y = conflicts r y"
  by (induction news arbitrary: r) (simp_all add: row_after_upserts_def)

lemma conflicts_row_after_upserts' [simp]:
  "conflicts y (row_after_upserts r news) = conflicts y r"
  using conflicts_row_after_upserts[of r news y] by (simp add: conflicts_sym[of y])

lemma read_only_row_after_upserts:
  "q_read_only (row_after_upserts r news) = q_read_only r"
  by (induction news arbitrary: r) (simp_all add: row_after_upserts_def)

lemma executemany_upsert_only_row:
  assumes "r \<in> set tbl" and "\<forall>x \<in> set tbl. conflicts x r \<longrightarrow> x = r"
  shows "row_after_upserts r news \<in> set (executemany_upsert tbl news)
         \<and> (\<forall>x \<in> set (executemany_upsert tbl news).
               conflicts x r \<longrightarrow> x = row_after_upserts r news)"
  using assms
proof (induction news arbitrary: tbl r)
  case Nil
  then show ?case by (simp add: executemany_upsert_def row_after_upserts_def)
next
  case (Cons new news)
  let ?r1 = "if conflicts r new then do_update r new else r"
  have a: "?r1 \<in> set (upsert_property tbl new)"
    and b: "\<forall>x \<in> set (upsert_property tbl new). conflicts x ?r1 \<longrightarrow> x = ?r1"
    using upsert_property_only_row[OF Cons.prems] by blast+
  have c: "conflicts x ?r1 = conflicts x r" for x
    by (simp add: conflicts_sym[of x])
  from Cons.IH[OF a b]
  show ?case
    unfolding executemany_upsert_def row_after_upserts_def
    by (simp add: c)
qed

lemma row_after_upserts_not_writable:
  "q_read_only r \<noteq> Some False \<Longrightarrow> row_after_upserts r news = r"
  by (induction news) (simp_all add: row_after_upserts_def do_update_not_writable)

lemma row_after_upserts_filter:
  "row_after_upserts r news = row_after_upserts r (filter (\<lambda>new. conflicts r new) news)"
proof (induction news arbitrary: r)
  case Nil
  then show ?case by simp
next
  case (Cons new news)
  have k: "conflicts (do_update r new) y = conflicts r y" for y by simp
  show ?case
  proof (cases "conflicts r new")
    case True
    have "row_after_upserts r (new # news) = row_after_upserts (do_update r new) news"
      using True by (simp add: row_after_upserts_def)
    also have "\<dots> = row_after_upserts (do_update r new)
                        (filter (\<lambda>n. conflicts (do_update r new) n) news)"
      by (rule Cons.IH)
    also have "\<dots> = row_after_upserts r (filter (\<lambda>n. conflicts r n) (new # news))"
      using True by (simp add: row_after_upserts_def)
    finally show ?thesis .
  next
    case False
    have "row_after_upserts r (new # news) = row_after_upserts r news"
      using False by (simp add: row_after_upserts_def)
    then show ?thesis using False Cons.IH[of r] by simp
  qed
qed

lemma filter_node_props_insert:
  assumes "q_node_path r = lt" and "q_space_id r = space_id"
  shows "filter (\<lambda>new. conflicts r new) (node_props_insert node lt space_id)
         = map (\<lambda>prop. PropertyRow (p_uri prop) (p_value prop) (p_read_only prop) lt space_id)
             (filter (\<lambda>p. \<not> p_delete p \<and> p_uri p = q_uri r) (n_properties node))"
proof -
  have "(\<lambda>x. \<not> p_delete x \<and> q_uri r = p_uri x) = (\<lambda>p. \<not> p_delete p \<and> p_uri p = q_uri r)"
    by auto
  then show ?thesis
    using assms by (simp add: node_props_insert_def conflicts_def filter_map comp_def)
qed

lemma update_properties_Inr:
  assumes "update_properties space_id app_permits nodes props node identity = Inr props'"
    and "path_to_ltree (n_path node) = Inr lt"
  shows "props' = execute_delete
                    (executemany_upsert props (node_props_insert node lt space_id))
                    (node_props_delete node) lt space_id"
  using assms
  by (auto simp: update_properties_def split: sum.splits option.splits if_splits)

text \<open>
  What \<open>update_properties\<close> does to a stored row \<open>r\<close> of the node that is the only row
  of its (uri, path, space): when \<open>read_only\<close> is not false, the upserts and the delete
  markers leave the row and its value as they were; when it is false and the URI has a
  delete marker, no row of that key is left; when it is false, the URI has no delete
  marker and one upsert, the stored value becomes the upsert's value when the
  statement's comparison \<open>properties.value != $2\<close> is true, and stays what it was
  otherwise.
\<close>

lemma update_properties_read_only_semantics:
  assumes ok: "update_properties space_id app_permits nodes props node identity = Inr props'"
    and lt: "path_to_ltree (n_path node) = Inr lt"
    and r: "r \<in> set props" "q_node_path r = lt" "q_space_id r = space_id"
    and uniq: "\<forall>x \<in> set props. conflicts x r \<longrightarrow> x = r"
  shows "length (node_props_delete node) + length (node_props_insert node lt space_id)
           = length (n_properties node)
         \<and> (q_read_only r \<noteq> Some False \<longrightarrow>
               r \<in> set props' \<and> (\<forall>x \<in> set props'. conflicts x r \<longrightarrow> x = r))
         \<and> (q_read_only r = Some False \<and> q_uri r \<in> set (node_props_delete node) \<longrightarrow>
               (\<forall>x \<in> set props'. \<not> conflicts x r))
         \<and> (q_read_only r = Some False \<and> q_uri r \<notin> set (node_props_delete node)
              \<and> filter (\<lambda>p. \<not> p_delete p \<and> p_uri p = q_uri r) (n_properties node) = [prop]
              \<longrightarrow>
               PropertyRow (q_uri r)
                 (if sql_true (sql_ne (q_value r) (p_value prop)) then p_value prop
                  else q_value r)
                 (Some False) lt space_id \<in> set props'
               \<and> (\<forall>x \<in> set props'. conflicts x r \<longrightarrow>
                     q_value x = (if sql_true (sql_ne (q_value r) (p_value prop))
                                  then p_value prop else q_value r)))"
proof -
  let ?news = "node_props_insert node lt space_id"
  let ?dels = "node_props_delete node"
  let ?mid = "executemany_upsert props ?news"
  let ?r1 = "row_after_upserts r ?news"
  have res: "props' = execute_delete ?mid ?dels lt space_id"
    using update_properties_Inr[OF ok lt] .
  have mid: "?r1 \<in> set ?mid" "\<forall>x \<in> set ?mid. conflicts x r \<longrightarrow> x = ?r1"
    using executemany_upsert_only_row[OF r(1) uniq] by blast+
  have ro1: "q_read_only ?r1 = q_read_only r"
    by (rule read_only_row_after_upserts)
  have key1: "q_uri ?r1 = q_uri r" "q_node_path ?r1 = lt" "q_space_id ?r1 = space_id"
    using conflicts_row_after_upserts[of r ?news r] r(2,3)
    by (simp_all add: conflicts_def)
  have part: "length ?dels + length ?news = length (n_properties node)"
    by (simp add: node_props_delete_def node_props_insert_def sum_length_filter_compl)
  have A: "r \<in> set props' \<and> (\<forall>x \<in> set props'. conflicts x r \<longrightarrow> x = r)"
    if "q_read_only r \<noteq> Some False"
  proof -
    have "?r1 = r" using that by (rule row_after_upserts_not_writable)
    moreover have "\<not> delete_matches ?dels lt space_id r"
      using that by (auto simp: delete_matches_def sql_true_def sql_eq_def split: option.splits)
    ultimately show ?thesis using mid by (auto simp: res execute_delete_def)
  qed
  have B: "\<forall>x \<in> set props'. \<not> conflicts x r"
    if "q_read_only r = Some False" "q_uri r \<in> set ?dels"
  proof
    fix x assume x: "x \<in> set props'"
    show "\<not> conflicts x r"
    proof
      assume c: "conflicts x r"
      from x have xm: "x \<in> set ?mid" and nd: "\<not> delete_matches ?dels lt space_id x"
        by (auto simp: res execute_delete_def)
      from xm c mid(2) have "x = ?r1" by blast
      then have "delete_matches ?dels lt space_id x"
        using that ro1 key1 by (simp add: delete_matches_def sql_true_def sql_eq_def)
      with nd show False by contradiction
    qed
  qed
  have C: "PropertyRow (q_uri r)
                 (if sql_true (sql_ne (q_value r) (p_value prop)) then p_value prop
                  else q_value r)
                 (Some False) lt space_id \<in> set props'
               \<and> (\<forall>x \<in> set props'. conflicts x r \<longrightarrow>
                     q_value x = (if sql_true (sql_ne (q_value r) (p_value prop))
                                  then p_value prop else q_value r))"
    if w: "q_read_only r = Some False" and nd: "q_uri r \<notin> set ?dels"
      and one: "filter (\<lambda>p. \<not> p_delete p \<and> p_uri p = q_uri r) (n_properties node) = [prop]"
  proof -
    let ?new = "PropertyRow (p_uri prop) (p_value prop) (p_read_only prop) lt space_id"
    have "filter (\<lambda>new. conflicts r new) ?news = [?new]"
      using filter_node_props_insert[OF r(2,3), of node] one by simp
    then have "?r1 = row_after_upserts r [?new]"
      using row_after_upserts_filter[of r ?news] by simp
    moreover have "conflicts r ?new"
    proof -
      have "prop \<in> set (filter (\<lambda>p. \<not> p_delete p \<and> p_uri p = q_uri r) (n_properties node))"
        using one by simp
      then show ?thesis using r(2,3) by (simp add: conflicts_def)
    qed
    ultimately have "?r1 = do_update r ?new" by (simp add: row_after_upserts_def)
    then have r1: "?r1 = PropertyRow (q_uri r)
                 (if sql_true (sql_ne (q_value r) (p_value prop)) then p_value prop
                  else q_value r)
                 (Some False) lt space_id"
      using do_update_writable[OF w, of ?new] r(2,3) by simp
    have "\<not> delete_matches ?dels lt space_id ?r1"
      using nd key1 by (simp add: delete_matches_def)
    then have "?r1 \<in> set props'" using mid(1) by (simp add: res execute_delete_def)
    moreover have "\<forall>x \<in> set props'. conflicts x r \<longrightarrow> x = ?r1"
      using mid(2) by (auto simp: res execute_delete_def)
    ultimately show ?thesis unfolding r1 by auto
  qed
  show ?thesis using part A B C by blast
qed


lemma update_properties_read_only_semantics_example:
  "update_properties 1 (\<lambda>identity permission node. Inr True)
     [NodeRow 0 ''n'' ''a.n'' (Some ''alice'') 1 None False None None]
     [PropertyRow ''ivo://x/vospace#ro'' (Some ''old'') (Some True) ''a.n'' 1,
      PropertyRow ''ivo://x/vospace#rw'' (Some ''old'') (Some False) ''a.n'' 1,
      PropertyRow ''ivo://x/vospace#rodel'' (Some ''kept'') (Some True) ''a.n'' 1,
      PropertyRow ''ivo://x/vospace#rwdel'' (Some ''gone'') (Some False) ''a.n'' 1]
     (NodeObj NodeC ''a/n''
        [PropertyObj ''ivo://x/vospace#ro'' (Some ''new'') (Some False) True False,
         PropertyObj ''ivo://x/vospace#rodel'' None (Some False) True True,
         PropertyObj ''ivo://x/vospace#rw'' (Some ''new'') (Some False) True False,
         PropertyObj ''ivo://x/vospace#rwdel'' None (Some False) True True]
        None [] [] False [] [] None [])
     ''alice''
   = Inr [PropertyRow ''ivo://x/vospace#ro'' (Some ''old'') (Some True) ''a.n'' 1,
          PropertyRow ''ivo://x/vospace#rw'' (Some ''new'') (Some False) ''a.n'' 1,
          PropertyRow ''ivo://x/vospace#rodel'' (Some ''kept'') (Some True) ''a.n'' 1]
   \<and> path_to_ltree ''a/n'' = Inr ''a.n''"
proof -
  let ?tbl = "[PropertyRow ''ivo://x/vospace#ro'' (Some ''old'') (Some True) ''a.n'' 1,
      PropertyRow ''ivo://x/vospace#rw'' (Some ''old'') (Some False) ''a.n'' 1,
      PropertyRow ''ivo://x/vospace#rodel'' (Some ''kept'') (Some True) ''a.n'' 1,
      PropertyRow ''ivo://x/vospace#rwdel'' (Some ''gone'') (Some False) ''a.n'' 1]"
  let ?node = "NodeObj NodeC ''a/n''
        [PropertyObj ''ivo://x/vospace#ro'' (Some ''new'') (Some False) True False,
         PropertyObj ''ivo://x/vospace#rodel'' None (Some False) True True,
         PropertyObj ''ivo://x/vospace#rw'' (Some ''new'') (Some False) True False,
         PropertyObj ''ivo://x/vospace#rwdel'' None (Some False) True True]
        None [] [] False [] [] None []"
  let ?nodes = "[NodeRow 0 ''n'' ''a.n'' (Some ''alice'') 1 None False None None]"
  have lt0: "path_to_ltree ''a/n'' = Inr ''a.n''"
    by (simp add: path_to_ltree_def filter_None_def)
  then have lt: "path_to_ltree (n_path ?node) = Inr ''a.n''"
    by simp
  obtain props' where ok:
    "update_properties 1 (\<lambda>identity permission node. Inr True) ?nodes ?tbl ?node ''alice''
       = Inr props'"
    by (simp add: update_properties_def lt0 node_type_def)
  have dels: "node_props_delete ?node = [''ivo://x/vospace#rodel'', ''ivo://x/vospace#rwdel'']"
    by (simp add: node_props_delete_def)
  note T = update_properties_read_only_semantics[OF ok lt]
  have ro: "PropertyRow ''ivo://x/vospace#ro'' (Some ''old'') (Some True) ''a.n'' 1 \<in> set props'"
    using T[of "PropertyRow ''ivo://x/vospace#ro'' (Some ''old'') (Some True) ''a.n'' 1"]
    by (simp add: conflicts_def)
  have rodel:
    "PropertyRow ''ivo://x/vospace#rodel'' (Some ''kept'') (Some True) ''a.n'' 1 \<in> set props'"
    using T[of "PropertyRow ''ivo://x/vospace#rodel'' (Some ''kept'') (Some True) ''a.n'' 1"]
    by (simp add: conflicts_def)
  have rw: "PropertyRow ''ivo://x/vospace#rw'' (Some ''new'') (Some False) ''a.n'' 1 \<in> set props'"
    using T[of "PropertyRow ''ivo://x/vospace#rw'' (Some ''old'') (Some False) ''a.n'' 1"
              "PropertyObj ''ivo://x/vospace#rw'' (Some ''new'') (Some False) True False"]
    by (simp add: conflicts_def dels sql_true_def sql_ne_def)
  have rwdel: "\<forall>x \<in> set props'.
      \<not> conflicts x (PropertyRow ''ivo://x/vospace#rwdel'' (Some ''gone'') (Some False) ''a.n'' 1)"
    using T[of "PropertyRow ''ivo://x/vospace#rwdel'' (Some ''gone'') (Some False) ''a.n'' 1"]
    by (simp add: conflicts_def dels)
  have "props' = [PropertyRow ''ivo://x/vospace#ro'' (Some ''old'') (Some True) ''a.n'' 1,
          PropertyRow ''ivo://x/vospace#rw'' (Some ''new'') (Some False) ''a.n'' 1,
          PropertyRow ''ivo://x/vospace#rodel'' (Some ''kept'') (Some True) ''a.n'' 1]"
    using ok ro rodel rw rwdel
    by (simp add: update_properties_def lt0 node_type_def node_props_insert_def
          node_props_delete_def executemany_upsert_def upsert_property_def conflicts_def
          do_update_def sql_true_def sql_and_def sql_eq_def sql_ne_def execute_delete_def
          delete_matches_def)
  then show ?thesis using ok lt0 by simp
qed

text \<open>
  C5 fails on the code for a property that is not read-only and whose stored or
  supplied value is \<open>None\<close> (\<open>NULL\<close> in the table, the value of a property element
  without text): the comparison \<open>properties.value != $2\<close> of the upsert is then not
  true, so the update writes nothing. A writable row holding \<open>NULL\<close> is not updated to
  \<open>new\<close>, and a writable row holding \<open>old\<close> is not updated to \<open>NULL\<close>.
\<close>

theorem update_properties_null_value_not_updated:
  "update_properties 1 (\<lambda>identity permission node. Inr True)
     [NodeRow 0 ''n'' ''a.n'' (Some ''alice'') 1 None False None None]
     [PropertyRow ''ivo://x/vospace#rw'' None (Some False) ''a.n'' 1]
     (NodeObj NodeC ''a/n''
        [PropertyObj ''ivo://x/vospace#rw'' (Some ''new'') (Some False) True False]
        None [] [] False [] [] None [])
     ''alice''
   = Inr [PropertyRow ''ivo://x/vospace#rw'' None (Some False) ''a.n'' 1]
   \<and> update_properties 1 (\<lambda>identity permission node. Inr True)
     [NodeRow 0 ''n'' ''a.n'' (Some ''alice'') 1 None False None None]
     [PropertyRow ''ivo://x/vospace#rw'' (Some ''old'') (Some False) ''a.n'' 1]
     (NodeObj NodeC ''a/n''
        [PropertyObj ''ivo://x/vospace#rw'' None (Some False) True False]
        None [] [] False [] [] None [])
     ''alice''
   = Inr [PropertyRow ''ivo://x/vospace#rw'' (Some ''old'') (Some False) ''a.n'' 1]"
proof -
  have lt0: "path_to_ltree ''a/n'' = Inr ''a.n''"
    by (simp add: path_to_ltree_def filter_None_def)
  show ?thesis
    by (simp add: update_properties_def lt0 node_type_def node_props_insert_def
          node_props_delete_def executemany_upsert_def upsert_property_def conflicts_def
          do_update_def sql_true_def sql_and_def sql_eq_def sql_ne_def execute_delete_def
          delete_matches_def)
qed

subsection \<open>The locking read of insert\<close>

text \<open>
  C2 fails on the code: the query of \<open>_get_node_and_parent\<close> is not scoped to the
  space for the node's own path. With an empty \<open>nodes\<close> table the read for path \<open>a\<close>
  in space 1 finds nothing; once space 2 holds a node \<open>a\<close>, the same read in space 1
  returns the row of space 2 as the node.
\<close>

theorem get_node_and_parent_reads_other_space:
  "get_node_and_parent 1 [] ''a'' = Inr (None, None)
   \<and> get_node_and_parent 1 [NodeRow 4 ''a'' ''a'' (Some ''bob'') 2 None False None None] ''a''
       = Inr (None, Some (NodeRow 4 ''a'' ''a'' (Some ''bob'') 2 None False None None))
   \<and> r_space_id (NodeRow 4 ''a'' ''a'' (Some ''bob'') 2 None False None None) = 2"
  by (simp add: get_node_and_parent_def filter_None_def Let_def)



subsection \<open>Protocols of a vos:transfer document\<close>

text \<open>The four well-known URIs give their classes, with the parsed endpoint and security
  method attached.\<close>

lemma httpput_valid: "validate_property_uri ''ivo://ivoa.net/vospace/core#httpput''
   = Inr (ParseResult ''ivo'' ''ivoa.net'' ''/vospace/core'' [] [] ''httpput'')"
  by code_simp
lemma httpget_valid: "validate_property_uri ''ivo://ivoa.net/vospace/core#httpget''
   = Inr (ParseResult ''ivo'' ''ivoa.net'' ''/vospace/core'' [] [] ''httpget'')"
  by code_simp
lemma httpsput_valid: "validate_property_uri ''ivo://ivoa.net/vospace/core#httpsput''
   = Inr (ParseResult ''ivo'' ''ivoa.net'' ''/vospace/core'' [] [] ''httpsput'')"
  by code_simp
lemma httpsget_valid: "validate_property_uri ''ivo://ivoa.net/vospace/core#httpsget''
   = Inr (ParseResult ''ivo'' ''ivoa.net'' ''/vospace/core'' [] [] ''httpsget'')"
  by code_simp

lemma build_endpoint_cases:
  "build_endpoint p = Inr ep \<Longrightarrow> ep = PyNone \<or> (\<exists>x. ep = PyEndpoint x)"
  by (auto simp: build_endpoint_def split: list.splits sum.splits)

lemma build_security_cases:
  "build_security p = Inr s \<Longrightarrow> s = PyNone \<or> (\<exists>x. s = PySecurityMethod x)"
  by (auto simp: build_security_def split: list.splits sum.splits option.splits)

lemma build_protocol_well_known:
  assumes "build_security p = Inr s" and "build_endpoint p = Inr ep"
  shows "(attrib_get p ''uri'' = Some ''ivo://ivoa.net/vospace/core#httpput'' \<longrightarrow>
            build_protocol p = Inr (ProtocolObj HTTPPut ''ivo://ivoa.net/vospace/core#httpput''
               (case ep of PyEndpoint x \<Rightarrow> Some x | _ \<Rightarrow> None)
               (case s of PySecurityMethod x \<Rightarrow> Some x | _ \<Rightarrow> None)))
       \<and> (attrib_get p ''uri'' = Some ''ivo://ivoa.net/vospace/core#httpget'' \<longrightarrow>
            build_protocol p = Inr (ProtocolObj HTTPGet ''ivo://ivoa.net/vospace/core#httpget''
               (case ep of PyEndpoint x \<Rightarrow> Some x | _ \<Rightarrow> None)
               (case s of PySecurityMethod x \<Rightarrow> Some x | _ \<Rightarrow> None)))
       \<and> (attrib_get p ''uri'' = Some ''ivo://ivoa.net/vospace/core#httpsput'' \<longrightarrow>
            build_protocol p = Inr (ProtocolObj HTTPSPut ''ivo://ivoa.net/vospace/core#httpsput''
               (case ep of PyEndpoint x \<Rightarrow> Some x | _ \<Rightarrow> None)
               (case s of PySecurityMethod x \<Rightarrow> Some x | _ \<Rightarrow> None)))
       \<and> (attrib_get p ''uri'' = Some ''ivo://ivoa.net/vospace/core#httpsget'' \<longrightarrow>
            build_protocol p = Inr (ProtocolObj HTTPSGet ''ivo://ivoa.net/vospace/core#httpsget''
               (case ep of PyEndpoint x \<Rightarrow> Some x | _ \<Rightarrow> None)
               (case s of PySecurityMethod x \<Rightarrow> Some x | _ \<Rightarrow> None)))"
  using assms build_endpoint_cases[OF assms(2)] build_security_cases[OF assms(1)]
  by (auto simp: build_protocol_def HTTPPut_init_def HTTPGet_init_def HTTPSPut_init_def
        HTTPSGet_init_def Protocol_init_def validate_property_uri_dyn_def
        httpput_valid httpget_valid httpsput_valid httpsget_valid
        endpoint_setter_def security_method_setter_def)


lemma Protocol_of_endpoint_fails:
  assumes "build_endpoint p = Inr ep"
  shows "\<exists>e. Protocol ep security_obj PyNone = Inl e"
  using assms
  by (auto simp: Protocol_def Protocol_init_def build_endpoint_def validate_property_uri_dyn_def
        split: list.splits sum.splits pyval.splits)

text \<open>
  C8 fails on the code for every \<open>vos:protocol\<close> element whose \<open>uri\<close> attribute is not
  one of the four well-known URIs: the last branch of \<open>build_node\<close> calls
  \<open>Protocol(endpoint, security_obj)\<close>, which hands the endpoint to the \<open>uri\<close> parameter,
  so the element never yields a generic \<open>Protocol\<close>: the constructor raises (when the
  element is reached at all), and with it the parse of the document.
\<close>

theorem build_protocol_generic_fails:
  assumes "attrib_get p ''uri'' \<notin> {Some ''ivo://ivoa.net/vospace/core#httpput'',
                                    Some ''ivo://ivoa.net/vospace/core#httpget'',
                                    Some ''ivo://ivoa.net/vospace/core#httpsput'',
                                    Some ''ivo://ivoa.net/vospace/core#httpsget''}"
  shows "\<exists>e. build_protocol p = Inl e"
proof (cases "build_security p")
  case (Inl e)
  then show ?thesis by (simp add: build_protocol_def)
next
  case sec: (Inr security_obj)
  show ?thesis
  proof (cases "build_endpoint p")
    case (Inl e)
    then show ?thesis using sec by (simp add: build_protocol_def)
  next
    case (Inr ep)
    from Protocol_of_endpoint_fails[OF this, of security_obj]
    obtain e where "Protocol ep security_obj PyNone = Inl e" by blast
    then show ?thesis using sec Inr assms by (simp add: build_protocol_def)
  qed
qed

theorem build_protocol_generic_fails_witness:
  "attrib_get (Element (vos ''protocol'') [(''uri'', ''ivo://ivoa.net/vospace/core#ftp'')] None [])
     ''uri'' = Some ''ivo://ivoa.net/vospace/core#ftp''
   \<and> build_protocol
        (Element (vos ''protocol'') [(''uri'', ''ivo://ivoa.net/vospace/core#ftp'')] None [])
       = Inl (InvalidArgument ''uri empty'')
   \<and> build_protocol
        (Element (vos ''protocol'') [(''uri'', ''ivo://ivoa.net/vospace/core#ftp'')] None
           [Element (vos ''endpoint'') [] (Some ''http://host/data'') []])
       = Inl AttributeError"
  using build_protocol_generic_fails
    [of "Element (vos ''protocol'') [(''uri'', ''ivo://ivoa.net/vospace/core#ftp'')] None []"]
  by (simp add: build_protocol_def build_security_def build_endpoint_def children_tagged_def
        attrib_get_def Protocol_def Protocol_init_def validate_property_uri_dyn_def vos_def
        Endpoint_def)


subsection \<open>UWSJob.toxml\<close>

text \<open>
  C4 fails on the code for every job with a non-empty results list: \<open>toxml\<close> returns a
  document whose \<open>uws:results\<close> element has no \<open>uws:result\<close> child at all, because its
  loop runs over the children of the fresh element instead of the job's results.
\<close>

theorem UWSJob_toxml_results_empty:
  assumes "j_results job = Some rs" and "UWSPhaseLookup (j_phase job) = Some ph"
  shows "\<exists>root. UWSJob_toxml job = Inr root
           \<and> children_tagged root (uws ''results'') = [Element (uws ''results'') [] None []]"
  using assms
  by (auto simp: UWSJob_toxml_def UWSJob_results_loop_def children_tagged_def uws_def
        Transfer_toxml_def split: option.splits)


theorem UWSJob_toxml_results_empty_witness:
  "j_results (new_UWSJob ''j1'' 3 ''2018-06-01 00:00:00'' None
                [UWSResultObj ''transferDetails'' [(''href'', ''/vospace/transfers/j1'')]] None)
     = Some [UWSResultObj ''transferDetails'' [(''href'', ''/vospace/transfers/j1'')]]
   \<and> UWSJob_toxml (new_UWSJob ''j1'' 3 ''2018-06-01 00:00:00'' None
                [UWSResultObj ''transferDetails'' [(''href'', ''/vospace/transfers/j1'')]] None)
     = Inr (Element (uws ''job'') [] None
              [Element (uws ''jobId'') [] (Some ''j1'') [],
               Element (uws ''ownerId'') [(xsi ''nil'', ''true'')] None [],
               Element (uws ''phase'') [] (Some ''COMPLETED'') [],
               Element (uws ''quote'') [] None [],
               Element (uws ''startTime'') [(xsi ''nil'', ''true'')] None [],
               Element (uws ''endTime'') [(xsi ''nil'', ''true'')] None [],
               Element (uws ''executionDuration'') [] (Some ''0'') [],
               Element (uws ''destruction'') [] (Some ''2018-06-01 00:00:00'') [],
               Element (uws ''results'') [] None []])
   \<and> UWSJob_results_toxml (new_UWSJob ''j1'' 3 ''2018-06-01 00:00:00'' None
                [UWSResultObj ''transferDetails'' [(''href'', ''/vospace/transfers/j1'')]] None)
     = Some (Element (uws ''results'') [] None
               [Element (uws ''result'')
                  [(''id'', ''transferDetails''), (''href'', ''/vospace/transfers/j1'')] None []])"
  using UWSJob_toxml_results_empty
    [of "new_UWSJob ''j1'' 3 ''2018-06-01 00:00:00'' None
           [UWSResultObj ''transferDetails'' [(''href'', ''/vospace/transfers/j1'')]] None"
        "[UWSResultObj ''transferDetails'' [(''href'', ''/vospace/transfers/j1'')]]"
        "''COMPLETED''"]
  by (simp add: new_UWSJob_def UWSJob_toxml_def UWSJob_results_loop_def UWSPhaseLookup_def
        UWSJob_results_toxml_def UWSResult_toxml_def append_child_def attrib_set_def)


subsection \<open>Guided tree insertion\<close>



















subsection \<open>Parsing a node's own serialization\<close>

lemma split_nonempty [simp]: "split c s \<noteq> []"
  by (induction s) auto

lemma join_Cons: "ws \<noteq> [] \<Longrightarrow> join sep (w # ws) = w @ sep @ join sep ws"
  by (cases ws) auto

lemma join_split: "join [c] (split c s) = s"
proof (induction s)
  case Nil
  then show ?case by simp
next
  case (Cons x xs)
  obtain w ws where sp: "split c xs = w # ws"
    using split_nonempty[of c xs] by (cases "split c xs") auto
  show ?case
  proof (cases "x = c")
    case True
    then show ?thesis using Cons by (simp add: join_Cons)
  next
    case False
    have "join [c] ((x # w) # ws) = x # join [c] (w # ws)"
      by (cases ws) auto
    then show ?thesis using False Cons sp by simp
  qed
qed

lemma split_no_sep_elems: "w \<in> set (split c s) \<Longrightarrow> c \<notin> set w"
proof (induction s arbitrary: w)
  case Nil
  then show ?case by simp
next
  case (Cons x xs)
  obtain v vs where sp: "split c xs = v # vs"
    using split_nonempty[of c xs] by (cases "split c xs") auto
  then have v: "c \<notin> set v" and vs: "\<forall>u \<in> set vs. c \<notin> set u"
    using Cons.IH by auto
  show ?case using Cons.prems sp v vs by (auto split: if_splits)
qed

lemma norm_comps_good:
  "list_all good_comp comps \<Longrightarrow> norm_comps i acc comps = acc @ comps"
  by (induction comps arbitrary: acc) (auto simp: good_comp_def)

lemma urlparse_to_uri:
  assumes "CHR ''#'' \<notin> set p" and "CHR ''?'' \<notin> set p"
  shows "urlparse (''vos://icrar.org!vospace/'' @ p)
         = Inr (ParseResult ''vos'' ''icrar.org!vospace'' (''/'' @ p) [] [] [])"
  using assms
  by (simp add: urlparse_def split_scheme_def splitnetloc_def scheme_chars_def lower_char_def
        uses_params_def Let_def)


lemma hd_split_nonempty: "hd (split c s) \<noteq> [] \<Longrightarrow> s \<noteq> [] \<and> hd s \<noteq> c"
  by (cases s) (auto split: if_splits)

lemma last_split_nonempty: "last (split c s) \<noteq> [] \<Longrightarrow> s \<noteq> [] \<and> last s \<noteq> c"
proof (induction s)
  case Nil
  then show ?case by simp
next
  case (Cons x xs)
  obtain v vs where sp: "split c xs = v # vs"
    using split_nonempty[of c xs] by (cases "split c xs") auto
  show ?case
  proof (cases "x = c")
    case True
    then have "last (split c xs) \<noteq> []" using Cons.prems sp by simp
    then show ?thesis using Cons.IH by auto
  next
    case x: False
    show ?thesis
    proof (cases "vs = []")
      case True
      have "v = xs" using join_split[of c xs] sp True by simp
      moreover have "c \<notin> set v" using split_no_sep_elems[of v c xs] sp by simp
      ultimately have "c \<notin> set xs" by simp
      then show ?thesis using x by (cases "xs = []") auto
    next
      case False
      then have "last (split c xs) \<noteq> []" using Cons.prems sp x by simp
      then show ?thesis using Cons.IH by auto
    qed
  qed
qed

lemma normpath_slash_canonical:
  assumes "p \<noteq> []" and "list_all good_comp (split CHR ''/'' p)"
  shows "normpath (CHR ''/'' # p) = CHR ''/'' # p"
    and "hd p \<noteq> CHR ''/''" and "last p \<noteq> CHR ''/''"
proof -
  have "good_comp (hd (split CHR ''/'' p))" "good_comp (last (split CHR ''/'' p))"
    using assms(2) split_nonempty[of "CHR ''/''" p]
    by (auto simp: list_all_iff)
  then show h: "hd p \<noteq> CHR ''/''" and l: "last p \<noteq> CHR ''/''"
    using hd_split_nonempty[of "CHR ''/''" p] last_split_nonempty[of "CHR ''/''" p]
    by (auto simp: good_comp_def)
  have i: "startswith (CHR ''/'' # p) ''/''" "\<not> startswith (CHR ''/'' # p) ''//''"
    using h assms(1) by (cases p; simp add: startswith_def)+
  have nc: "norm_comps 1 [] (split CHR ''/'' (CHR ''/'' # p)) = split CHR ''/'' p"
    using norm_comps_good[OF assms(2), of 1 "[]"] by simp
  have j: "join ''/'' (split CHR ''/'' p) = p"
    using join_split[of "CHR ''/''" p] by simp
  show "normpath (CHR ''/'' # p) = CHR ''/'' # p"
    unfolding normpath_def Let_def using i nc j by simp
qed

lemma uri_to_path_to_uri:
  assumes "canonical_path (n_path n)"
  shows "uri_to_path (to_uri n) = Inr (n_path n)"
proof (cases "n_path n = []")
  case True
  have "normpath ''/'' = ''/''" by (simp add: normpath_def startswith_def)
  then show ?thesis
    using True urlparse_to_uri[of "[]"]
    by (simp add: uri_to_path_def to_uri_def lstrip_def rstrip_def)
next
  case False
  let ?p = "n_path n"
  from assms False have c: "CHR ''#'' \<notin> set ?p" "CHR ''?'' \<notin> set ?p"
    "list_all good_comp (split CHR ''/'' ?p)"
    by (auto simp: canonical_path_def)
  note np = normpath_slash_canonical[OF False c(3)]
  have ls: "lstrip CHR ''/'' (CHR ''/'' # ?p) = ?p"
    using np(2) False by (cases ?p) (auto simp: lstrip_def)
  have rs: "rstrip CHR ''/'' ?p = ?p"
    using np(3) False by (cases ?p rule: rev_cases) (auto simp: rstrip_def)
  show ?thesis
    using urlparse_to_uri[OF c(1,2)] np(1) ls rs
    by (simp add: uri_to_path_def to_uri_def)
qed


lemma parse_property_toxml:
  assumes "wf_property p"
  shows "\<exists>q. parse_property (property_toxml p) = Inr q \<and> property_eq q p"
proof -
  from assms obtain r b where v: "validate_property_uri (p_uri p) = Inr r"
    and ro: "p_read_only p = Some b"
    by (cases "validate_property_uri (p_uri p)") (auto simp: wf_property_def)
  have rt: "read_only_text (Some b) \<noteq> []" "(read_only_text (Some b) = ''true'') = b"
    by (auto simp: read_only_text_def)
  show ?thesis
  proof (cases "p_delete p")
    case True
    then have "p_value p = None" "p_read_only p = Some False"
      using assms by (auto simp: wf_property_def)
    then show ?thesis using True v
      by (simp add: parse_property_def property_toxml_def attrib_get_def xsi_def
            DeleteProperty_def property_eq_def)
  next
    case False
    then show ?thesis using v ro rt
      by (simp add: parse_property_def property_toxml_def attrib_get_def xsi_def
            Property_def property_eq_def Let_def)
  qed
qed

lemma for_each_parse_property:
  "list_all wf_property ps \<Longrightarrow>
   \<exists>qs. for_each parse_property (map property_toxml ps) = Inr qs \<and> list_all2 property_eq qs ps"
proof (induction ps)
  case Nil
  then show ?case by simp
next
  case (Cons p ps)
  then obtain qs where qs: "for_each parse_property (map property_toxml ps) = Inr qs"
    "list_all2 property_eq qs ps" by auto
  from Cons.prems obtain q where q: "parse_property (property_toxml p) = Inr q" "property_eq q p"
    using parse_property_toxml[of p] by auto
  show ?case using q qs by simp
qed

lemma insort_key_rel:
  assumes "list_all2 R xs ys" and "R x y"
    and "\<And>a b. R a b \<Longrightarrow> f a = f b"
  shows "list_all2 R (insort_key f x xs) (insort_key f y ys)"
  using assms(1)
proof (induction rule: list_all2_induct)
  case Nil
  then show ?case using assms(2) by simp
next
  case (Cons a as b bs)
  then show ?case using assms(2) assms(3)[OF assms(2)] assms(3)[of a b] by auto
qed

lemma sort_key_rel:
  assumes "list_all2 R xs ys" and "\<And>a b. R a b \<Longrightarrow> f a = f b"
  shows "list_all2 R (sort_key f xs) (sort_key f ys)"
  using assms(1)
proof (induction rule: list_all2_induct)
  case Nil
  then show ?case by simp
next
  case (Cons a as b bs)
  then show ?case using insort_key_rel[of R "sort_key f as" "sort_key f bs" a b f] assms(2)
    by (simp add: sort_key_def)
qed

lemma sort_properties_rel:
  "list_all2 property_eq qs ps \<Longrightarrow>
   list_all2 property_eq (sort_properties qs) (sort_properties ps)"
  unfolding sort_properties_def
  by (rule sort_key_rel) (auto simp: property_eq_def)

lemma filter_property_toxml:
  "filter (\<lambda>c. x_tag c = vos ''property'') (map property_toxml ps) = map property_toxml ps"
  by (induction ps) (auto simp: property_toxml_def)


lemma filter_view_toxml:
  "filter (\<lambda>c. x_tag c = vos ''view'') (map view_toxml vs) = map view_toxml vs"
  by (induction vs) (auto simp: view_toxml_def)

lemmas tostring_unfold =
  tostring_def Node_toxml_def append_child_def attrib_set_def children_tagged_def
  filter_property_toxml filter_view_toxml Let_def

lemma tags_distinct [simp]:
  "vos a = vos b \<longleftrightarrow> a = b" "xsi a = xsi b \<longleftrightarrow> a = b" "vos a \<noteq> xsi b" "xsi a \<noteq> vos b"
  "xsi a \<noteq> ''uri''" "xsi a \<noteq> ''busy''" "''uri'' \<noteq> xsi a" "''busy'' \<noteq> xsi a"
  by (simp_all add: vos_def xsi_def)

lemma xpath_properties_tostring:
  "xpath_abs (tostring n) [vos ''node'', vos ''properties'', vos ''property'']
   = map property_toxml (n_properties n)"
  by (cases "n_class n") (simp_all add: tostring_unfold)

lemma attrib_uri_tostring: "attrib_get (tostring n) ''uri'' = Some (to_uri n)"
  by (cases "n_class n") (simp_all add: tostring_unfold attrib_get_def)

lemma attrib_type_tostring: "attrib_get (tostring n) (xsi ''type'') = Some (node_type_text n)"
  by (cases "n_class n") (simp_all add: tostring_unfold attrib_get_def)

lemma xpath_accepts_tostring:
  "xpath_abs (tostring n) [vos ''node'', vos ''accepts'', vos ''view'']
   = (if n_class n \<in> {DataNodeC, UnstructuredDataNodeC, StructuredDataNodeC}
      then map view_toxml (n_accepts n) else [])"
  by (cases "n_class n") (simp_all add: tostring_unfold)

lemma xpath_provides_tostring:
  "xpath_abs (tostring n) [vos ''node'', vos ''provides'', vos ''view'']
   = (if n_class n \<in> {DataNodeC, UnstructuredDataNodeC, StructuredDataNodeC}
      then map view_toxml (n_provides n) else [])"
  by (cases "n_class n") (simp_all add: tostring_unfold)

lemma xpath_nodes_tostring:
  "n_class n = ContainerNodeC \<Longrightarrow>
   xpath_abs (tostring n) [vos ''node'', vos ''nodes'', vos ''node'']
   = map child_entry (map snd (n_nodes n))"
proof -
  have "filter (\<lambda>c. x_tag c = vos ''node'') (map child_entry xs) = map child_entry xs" for xs
    by (induction xs) (auto simp: child_entry_def)
  then show "n_class n = ContainerNodeC \<Longrightarrow> ?thesis"
    by (simp add: tostring_unfold child_entry_def[abs_def])
qed

lemma target_tostring:
  "n_class n = LinkNodeC \<Longrightarrow>
   children_tagged (tostring n) (vos ''target'') = [Element (vos ''target'') [] (n_target n) []]"
  by (simp add: tostring_unfold)


lemma create_node_to_uri:
  assumes "canonical_path (n_path n)"
  shows "create_node (Some (to_uri n)) (Some (node_type_text n)) b
         = Inr (NodeObj (n_class n) (n_path n) [] None [] []
                  (if n_class n \<in> {NodeC, LinkNodeC} then False else b) [] [] None [])"
  using uri_to_path_to_uri[OF assms]
  by (cases "n_class n")
     (simp_all add: create_node_def new_node_opt_def new_node_def node_type_text_def
        class_text_def)

lemma Node_build_node_fresh:
  assumes "xpath_abs root [vos ''node'', vos ''properties'', vos ''property'']
           = map property_toxml ps"
    and "list_all wf_property ps" and "n_properties self = []"
  shows "\<exists>qs. Node_build_node self root = Inr (set_properties self (sort_properties qs))
              \<and> list_all2 property_eq (sort_properties qs) (sort_properties ps)"
proof -
  from for_each_parse_property[OF assms(2)] obtain qs where
    "for_each parse_property (map property_toxml ps) = Inr qs" "list_all2 property_eq qs ps"
    by blast
  then show ?thesis
    using assms(1,3) sort_properties_rel[of qs ps] by (auto simp: Node_build_node_def)
qed

lemma for_each_parse_view:
  "list_all wf_view vs \<Longrightarrow> for_each (parse_view msg) (map view_toxml vs) = Inr vs"
proof (induction vs)
  case Nil
  then show ?case by simp
next
  case (Cons v vs)
  then have "\<not> isl (validate_property_uri (v_uri v))" by (simp add: wf_view_def)
  then obtain r where "validate_property_uri (v_uri v) = Inr r"
    by (cases "validate_property_uri (v_uri v)") auto
  then have "parse_view msg (view_toxml v) = Inr v"
    by (cases v) (simp add: parse_view_def view_toxml_def attrib_get_def View_def)
  then show ?case using Cons by simp
qed

lemma build_children_entries:
  assumes "list_all (\<lambda>c. canonical_path (n_path c) \<and> n_dirname c = n_path self) cs"
  shows "\<exists>m. build_children self b (map child_entry cs) = Inr m
             \<and> n_path m = n_path self \<and> n_class m = n_class self
             \<and> n_properties m = n_properties self"
  using assms
proof (induction cs arbitrary: self)
  case Nil
  then show ?case by simp
next
  case (Cons c cs)
  let ?fresh = "NodeObj (n_class c) (n_path c) [] None [] []
                  (if n_class c \<in> {NodeC, LinkNodeC} then False else b) [] [] None []"
  have cn: "create_node (attrib_get (child_entry c) ''uri'')
              (attrib_get (child_entry c) (xsi ''type'')) b = Inr ?fresh"
    using Cons.prems create_node_to_uri[of c b]
    by (simp add: child_entry_def attrib_get_def)
  have dn: "n_dirname ?fresh = n_path self"
    using Cons.prems by (simp add: n_dirname_def)
  let ?self1 = "set_nodes self (dict_set (n_nodes self) (n_name ?fresh) ?fresh)"
  have an: "add_node self ?fresh True = Inr ?self1"
    using dn by (simp add: add_node_def)
  have same: "n_path ?self1 = n_path self" "n_class ?self1 = n_class self"
    "n_properties ?self1 = n_properties self"
    by (simp_all add: set_nodes_def)
  have "list_all (\<lambda>c. canonical_path (n_path c) \<and> n_dirname c = n_path ?self1) cs"
    using Cons.prems same by simp
  from Cons.IH[OF this] obtain m where
    "build_children ?self1 b (map child_entry cs) = Inr m"
    "n_path m = n_path ?self1" "n_class m = n_class ?self1"
    "n_properties m = n_properties ?self1"
    by blast
  then show ?case using cn an same by simp
qed


text \<open>
  On well-formed input of every class the round trip succeeds and keeps the path, the
  type tag and the property list sorted by URI.
\<close>

lemma fromstring_tostring_round_trip:
  assumes cp: "canonical_path (n_path n)"
    and wp: "list_all wf_property (n_properties n)"
    and wv: "list_all wf_view (n_accepts n)" "list_all wf_view (n_provides n)"
    and ch: "list_all (\<lambda>c. canonical_path (n_path c) \<and> n_dirname c = n_path n)
               (map snd (n_nodes n))"
  shows "\<exists>m. fromstring (tostring n) = Inr m \<and> n_path m = n_path n
             \<and> node_type_text m = node_type_text n
             \<and> list_all2 property_eq (n_properties m) (sort_properties (n_properties n))"
proof -
  let ?root = "tostring n"
  let ?b = "attrib_get ?root ''busy'' = Some ''true''"
  let ?fresh = "NodeObj (n_class n) (n_path n) [] None [] []
                  (if n_class n \<in> {NodeC, LinkNodeC} then False else ?b) [] [] None []"
  have cn: "create_node (attrib_get ?root ''uri'') (attrib_get ?root (xsi ''type'')) ?b
            = Inr ?fresh"
    using create_node_to_uri[OF cp, of ?b]
    by (simp add: attrib_uri_tostring attrib_type_tostring)
  from Node_build_node_fresh[OF xpath_properties_tostring wp, of ?fresh]
  obtain qs where nb: "Node_build_node ?fresh ?root = Inr (set_properties ?fresh (sort_properties qs))"
    and eq: "list_all2 property_eq (sort_properties qs) (sort_properties (n_properties n))"
    by auto
  let ?n1 = "set_properties ?fresh (sort_properties qs)"
  have n1: "n_path ?n1 = n_path n" "n_class ?n1 = n_class n"
    "n_properties ?n1 = sort_properties qs" "n_accepts ?n1 = []" "n_provides ?n1 = []"
    by (simp_all add: set_properties_def)
  have goal: "\<exists>m. build_node ?fresh ?root = Inr m \<and> n_path m = n_path n
             \<and> n_class m = n_class n \<and> n_properties m = sort_properties qs"
  proof (cases "n_class n")
    case NodeC
    then show ?thesis using nb n1 by (simp add: build_node_def)
  next
    case LinkNodeC
    then show ?thesis using nb n1 target_tostring[of n]
      by (simp add: build_node_def set_target_def)
  next
    case ContainerNodeC
    have dn: "DataNode_build_node ?fresh ?root = Inr (set_views ?n1 [] [])"
      using nb ContainerNodeC n1
      by (simp add: DataNode_build_node_def xpath_accepts_tostring xpath_provides_tostring
            del: xpath_abs.simps)
    let ?n2 = "set_views ?n1 [] []"
    have n2: "n_path ?n2 = n_path n" "n_class ?n2 = n_class n"
      "n_properties ?n2 = sort_properties qs"
      by (simp_all add: set_views_def set_properties_def)
    have "list_all (\<lambda>c. canonical_path (n_path c) \<and> n_dirname c = n_path ?n2)
            (map snd (n_nodes n))"
      using ch n2 by simp
    from build_children_entries[OF this, of ?b]
    obtain m where "build_children ?n2 ?b (map child_entry (map snd (n_nodes n))) = Inr m"
      "n_path m = n_path ?n2" "n_class m = n_class ?n2" "n_properties m = n_properties ?n2"
      by blast
    then show ?thesis using ContainerNodeC dn n2 xpath_nodes_tostring[of n]
      by (simp add: build_node_def del: xpath_abs.simps)
  next
    case DataNodeC
    have "DataNode_build_node ?fresh ?root
          = Inr (set_views ?n1 (n_accepts n) (n_provides n))"
      using nb DataNodeC n1 wv
      by (simp add: DataNode_build_node_def xpath_accepts_tostring xpath_provides_tostring
            for_each_parse_view del: xpath_abs.simps)
    then show ?thesis using DataNodeC
      by (simp add: build_node_def set_views_def set_properties_def)
  next
    case UnstructuredDataNodeC
    have "DataNode_build_node ?fresh ?root
          = Inr (set_views ?n1 (n_accepts n) (n_provides n))"
      using nb UnstructuredDataNodeC n1 wv
      by (simp add: DataNode_build_node_def xpath_accepts_tostring xpath_provides_tostring
            for_each_parse_view del: xpath_abs.simps)
    then show ?thesis using UnstructuredDataNodeC
      by (simp add: build_node_def set_views_def set_properties_def)
  next
    case StructuredDataNodeC
    have "DataNode_build_node ?fresh ?root
          = Inr (set_views ?n1 (n_accepts n) (n_provides n))"
      using nb StructuredDataNodeC n1 wv
      by (simp add: DataNode_build_node_def xpath_accepts_tostring xpath_provides_tostring
            for_each_parse_view del: xpath_abs.simps)
    then show ?thesis using StructuredDataNodeC
      by (simp add: build_node_def set_views_def set_properties_def)
  qed
  then obtain m where "build_node ?fresh ?root = Inr m" "n_path m = n_path n"
    "n_class m = n_class n" "n_properties m = sort_properties qs"
    by blast
  then show ?thesis using cn eq
    by (simp add: fromstring_def node_type_text_def)
qed


lemma title_valid: "validate_property_uri ''ivo://ivoa.net/vospace/core#title''
   = Inr (ParseResult ''ivo'' ''ivoa.net'' ''/vospace/core'' [] [] ''title'')"
  by code_simp

lemma uri_to_path_vos_a_b: "uri_to_path ''vos://icrar.org!vospace/a/b'' = Inr ''a/b''"
  by code_simp

text \<open>
  C3 fails on the code for a node that holds a property whose \<open>read_only\<close> is \<open>None\<close>,
  which is what \<open>fromstring\<close> builds from a \<open>vos:property\<close> without a \<open>readOnly\<close>
  attribute: \<open>tostring\<close> writes \<open>readOnly="none"\<close>, which parses back as \<open>False\<close>, and
  the parsed node is not equal to the original (the property lists differ).
\<close>

theorem fromstring_tostring_read_only_absent:
  "fromstring
     (Element (vos ''node'')
        [(xsi ''type'', ''vos:Node''), (''uri'', ''vos://icrar.org!vospace/a/b'')] None
        [Element (vos ''properties'') [] None
           [Element (vos ''property'') [(''uri'', ''ivo://ivoa.net/vospace/core#title'')]
              (Some ''t'') []]])
   = Inr (NodeObj NodeC ''a/b''
            [PropertyObj ''ivo://ivoa.net/vospace/core#title'' (Some ''t'') None True False]
            None [] [] False [] [] None [])
   \<and> tostring (NodeObj NodeC ''a/b''
            [PropertyObj ''ivo://ivoa.net/vospace/core#title'' (Some ''t'') None True False]
            None [] [] False [] [] None [])
   = Element (vos ''node'')
        [(xsi ''type'', ''vos:Node''), (''uri'', ''vos://icrar.org!vospace/a/b'')] None
        [Element (vos ''properties'') [] None
           [Element (vos ''property'')
              [(''uri'', ''ivo://ivoa.net/vospace/core#title''), (''readOnly'', ''none'')]
              (Some ''t'') []]]
   \<and> fromstring (tostring (NodeObj NodeC ''a/b''
            [PropertyObj ''ivo://ivoa.net/vospace/core#title'' (Some ''t'') None True False]
            None [] [] False [] [] None []))
   = Inr (NodeObj NodeC ''a/b''
            [PropertyObj ''ivo://ivoa.net/vospace/core#title'' (Some ''t'') (Some False) True False]
            None [] [] False [] [] None [])
   \<and> \<not> node_eq
         (NodeObj NodeC ''a/b''
            [PropertyObj ''ivo://ivoa.net/vospace/core#title'' (Some ''t'') (Some False) True False]
            None [] [] False [] [] None [])
         (NodeObj NodeC ''a/b''
            [PropertyObj ''ivo://ivoa.net/vospace/core#title'' (Some ''t'') None True False]
            None [] [] False [] [] None [])"
  by (simp add: fromstring_def tostring_def Node_toxml_def property_toxml_def create_node_def
        new_node_opt_def new_node_def uri_to_path_vos_a_b build_node_def Node_build_node_def
        parse_property_def Property_def title_valid attrib_get_def vos_def xsi_def
        node_type_text_def class_text_def to_uri_def read_only_text_def set_properties_def
        sort_properties_def children_tagged_def property_eq_def)


end
